theory Spec2Isabelle
  imports Main "HOL-Library.Word"
begin

section \<open>NCCL collective thunks: a shallow embedding of nccl_collective_thunk.cc\<close>

text \<open>
  The development follows \<^verbatim>\<open>xla/service/gpu/nccl_collective_thunk.cc\<close>.
  Functions of that file are translated one by one and keep their names. Collaborators
  declared in other files (the device assignment, the clique registry, the stream
  executor, the NCCL API) are not translated: each one is a parameter of the function
  that calls it.
\<close>

subsection \<open>Basic types\<close>

type_synonym int64 = "64 word"

text \<open>\<^verbatim>\<open>absl::Status\<close>: the codes of \<^verbatim>\<open>absl::StatusCode\<close> other than \<^verbatim>\<open>kOk\<close>, and a
  message. A \<^verbatim>\<open>Status\<close> is an error or nothing, a \<^verbatim>\<open>StatusOr<T>\<close> an error or a value.\<close>

datatype StatusCode =
    kCancelled | kUnknown | kInvalidArgument | kDeadlineExceeded | kNotFound
  | kAlreadyExists | kPermissionDenied | kResourceExhausted | kFailedPrecondition
  | kAborted | kOutOfRange | kUnimplemented | kInternal | kUnavailable | kDataLoss
  | kUnauthenticated

datatype error = Error (code: StatusCode) (message: string)

type_synonym 'a StatusOr = "error + 'a"
type_synonym Status = "error + unit"

abbreviation OkStatus :: Status where
  "OkStatus \<equiv> Inr ()"

text \<open>What ends a call without a returned value: a failed \<^verbatim>\<open>CHECK\<close> aborts the process;
  reading the value of an empty \<^verbatim>\<open>std::optional\<close> through \<^verbatim>\<open>operator*\<close>,
  indexing a vector beyond its size and calling a method through a null pointer are
  undefined.\<close>

datatype fault = CheckFailure string | EmptyOptionalDeref | IndexOutOfRange | NullPointerDeref

text \<open>\<^verbatim>\<open>PrimitiveType\<close> is declared outside this file. The enumerators that
  \<^verbatim>\<open>IsTypeSupportedByNccl\<close> names are constructors; every other enumerator is
  \<open>OtherPrimitiveType\<close> of its number, and takes the \<^verbatim>\<open>default:\<close> branch.\<close>

datatype PrimitiveType =
    S8 | PRED | U8 | S32 | U32 | S64 | U64 | F16 | F32 | F64 | BF16 | C64 | C128
  | S16 | U16 | F8E5M2 | F8E4M3FN
  | OtherPrimitiveType nat

subsection \<open>The collective configuration\<close>

text \<open>\<^verbatim>\<open>CollectiveOpGroupMode\<close> has the four enumerators named in \<^verbatim>\<open>IsDegenerate\<close>. The
  \<^verbatim>\<open>default:\<close> branch of that switch (\<^verbatim>\<open>CHECK(0)\<close>) is reached by no enumerator.\<close>

datatype CollectiveOpGroupMode =
  kCrossReplica | kCrossPartition | kCrossReplicaAndPartition | kFlattenedID

text \<open>\<^verbatim>\<open>ReplicaGroup\<close> is a protocol buffer message with one repeated field.\<close>

record ReplicaGroup =
  replica_ids :: "int64 list"

definition replica_ids_size :: "ReplicaGroup \<Rightarrow> nat" where
  "replica_ids_size g = length (replica_ids g)"

datatype CollectiveOpKind = kCrossModule | kCrossReplicaKind

record NcclCollectiveConfig =
  operand_count :: int64
  operand_element_type :: "PrimitiveType list"
  replica_groups :: "ReplicaGroup list"
  collective_op_kind :: CollectiveOpKind
  op_id :: int64
  group_mode :: CollectiveOpGroupMode

text \<open>\<^verbatim>\<open>NcclCollectiveConfig::IsDegenerate\<close>, lines 128 to 156.\<close>

definition IsDegenerate :: "NcclCollectiveConfig \<Rightarrow> int64 \<Rightarrow> int64 \<Rightarrow> fault + bool" where
  "IsDegenerate config replica_count partition_count =
    (let groups_empty = (replica_groups config = []);
         all_groups_singleton =
           (\<not> groups_empty \<and>
            list_all (\<lambda>g. replica_ids_size g = 1) (replica_groups config))
     in case group_mode config of
          kCrossReplica \<Rightarrow>
            Inr (all_groups_singleton \<or> (groups_empty \<and> replica_count = 1))
        | kCrossPartition \<Rightarrow>
            Inr (all_groups_singleton \<or> (groups_empty \<and> partition_count = 1))
        | kCrossReplicaAndPartition \<Rightarrow>
            Inr ((all_groups_singleton \<and> partition_count = 1) \<or>
                 (groups_empty \<and> replica_count = 1 \<and> partition_count = 1))
        | kFlattenedID \<Rightarrow>
            if \<not> groups_empty then Inr all_groups_singleton
            else Inl (CheckFailure
              ''replica groups cannot be empty if use_global_device_ids = true''))"

subsection \<open>Operand validation\<close>

text \<open>\<^verbatim>\<open>IsTypeSupportedByNccl\<close>, lines 65 to 93. \<^verbatim>\<open>Thunk::Kind\<close> and
  \<^verbatim>\<open>IsReductionCollective\<close> are declared in thunk.h: the kind is a type parameter and the
  predicate a parameter.\<close>

fun IsTypeSupportedByNccl :: "('kind \<Rightarrow> bool) \<Rightarrow> PrimitiveType \<Rightarrow> 'kind \<Rightarrow> bool" where
  "IsTypeSupportedByNccl IsReductionCollective S8 reduction_op = True"
| "IsTypeSupportedByNccl IsReductionCollective PRED reduction_op = True"
| "IsTypeSupportedByNccl IsReductionCollective U8 reduction_op = True"
| "IsTypeSupportedByNccl IsReductionCollective S32 reduction_op = True"
| "IsTypeSupportedByNccl IsReductionCollective U32 reduction_op = True"
| "IsTypeSupportedByNccl IsReductionCollective S64 reduction_op = True"
| "IsTypeSupportedByNccl IsReductionCollective U64 reduction_op = True"
| "IsTypeSupportedByNccl IsReductionCollective F16 reduction_op = True"
| "IsTypeSupportedByNccl IsReductionCollective F32 reduction_op = True"
| "IsTypeSupportedByNccl IsReductionCollective F64 reduction_op = True"
| "IsTypeSupportedByNccl IsReductionCollective BF16 reduction_op = True"
| "IsTypeSupportedByNccl IsReductionCollective C64 reduction_op = True"
| "IsTypeSupportedByNccl IsReductionCollective C128 reduction_op = True"
| "IsTypeSupportedByNccl IsReductionCollective S16 reduction_op =
     (\<not> IsReductionCollective reduction_op)"
| "IsTypeSupportedByNccl IsReductionCollective U16 reduction_op =
     (\<not> IsReductionCollective reduction_op)"
| "IsTypeSupportedByNccl IsReductionCollective F8E5M2 reduction_op =
     (\<not> IsReductionCollective reduction_op)"
| "IsTypeSupportedByNccl IsReductionCollective F8E4M3FN reduction_op =
     (\<not> IsReductionCollective reduction_op)"
| "IsTypeSupportedByNccl IsReductionCollective (OtherPrimitiveType n) reduction_op = False"

text \<open>A \<^verbatim>\<open>Shape\<close> has an element type; its dimensions and layout are read only by
  \<^verbatim>\<open>LayoutUtil::IsDenseArray\<close> and \<^verbatim>\<open>Shape::ToString\<close>, which are parameters, as is
  \<^verbatim>\<open>primitive_util::LowercasePrimitiveTypeName\<close>.\<close>

record Shape =
  element_type :: PrimitiveType

record ('kind, 'shape) ShapeDeps =
  IsReductionCollective :: "'kind \<Rightarrow> bool"
  IsDenseArray :: "'shape \<Rightarrow> bool"
  ToString :: "'shape \<Rightarrow> string"
  LowercasePrimitiveTypeName :: "PrimitiveType \<Rightarrow> string"

text \<open>\<^verbatim>\<open>IsValidOperand(Shape, Thunk::Kind)\<close>, lines 491 to 503.\<close>

definition IsValidOperand ::
  "('kind, 'z Shape_scheme) ShapeDeps \<Rightarrow> 'z Shape_scheme \<Rightarrow> 'kind \<Rightarrow> Status" where
  "IsValidOperand deps shape reduction_op =
    (if \<not> IsDenseArray deps shape then
       Inl (Error kUnimplemented (''input is not a dense array: '' @ ToString deps shape))
     else if \<not> IsTypeSupportedByNccl (IsReductionCollective deps) (element_type shape)
                 reduction_op then
       Inl (Error kUnimplemented
             (''element type '' @ LowercasePrimitiveTypeName deps (element_type shape) @
              '' not suppored by NCCL''))
     else OkStatus)"

subsection \<open>Device buffers\<close>

text \<open>\<^verbatim>\<open>NcclCollectiveThunk::Buffer\<close> and \<^verbatim>\<open>DeviceBufferPair\<close>. A buffer slice and a
  device address are values of types declared elsewhere (type parameters), and
  \<^verbatim>\<open>BufferAllocations::GetDeviceAddress\<close> is a parameter.\<close>

record 'slice Buffer =
  element_count :: int64
  source_buffer :: 'slice
  destination_buffer :: 'slice
  source_memory_space :: int64
  destination_memory_space :: int64

record 'addr DeviceBufferPair =
  element_type :: PrimitiveType
  element_count :: int64
  source_buffer :: 'addr
  destination_buffer :: 'addr
  source_memory_space :: int64
  destination_memory_space :: int64

text \<open>The loop of \<^verbatim>\<open>ConvertToDeviceBuffers\<close>, lines 304 to 310: \<open>i\<close> is the loop
  counter and \<open>device_buffers\<close> the vector built so far.\<close>

function ConvertToDeviceBuffers_loop ::
  "('slice \<Rightarrow> 'addr) \<Rightarrow> 'slice Buffer list \<Rightarrow> PrimitiveType list \<Rightarrow> nat \<Rightarrow>
   'addr DeviceBufferPair list \<Rightarrow> 'addr DeviceBufferPair list" where
  "ConvertToDeviceBuffers_loop GetDeviceAddress buffers element_types i device_buffers =
    (if i < length buffers then
       ConvertToDeviceBuffers_loop GetDeviceAddress buffers element_types (i + 1)
         (device_buffers @
          [\<lparr> DeviceBufferPair.element_type = element_types ! i,
             element_count = Buffer.element_count (buffers ! i),
             source_buffer = GetDeviceAddress (Buffer.source_buffer (buffers ! i)),
             destination_buffer = GetDeviceAddress (Buffer.destination_buffer (buffers ! i)),
             source_memory_space = Buffer.source_memory_space (buffers ! i),
             destination_memory_space = Buffer.destination_memory_space (buffers ! i) \<rparr>])
     else device_buffers)"
  by pat_completeness auto
termination
  by (relation "measure (\<lambda>(GetDeviceAddress, buffers, element_types, i, device_buffers).
        length buffers - i)") auto

declare ConvertToDeviceBuffers_loop.simps [simp del]

text \<open>\<^verbatim>\<open>ConvertToDeviceBuffers\<close>, lines 295 to 312. Inside the loop both lists are
  indexed below their common length.\<close>

definition ConvertToDeviceBuffers ::
  "('slice \<Rightarrow> 'addr) \<Rightarrow> 'slice Buffer list \<Rightarrow> PrimitiveType list \<Rightarrow>
   'addr DeviceBufferPair list StatusOr" where
  "ConvertToDeviceBuffers GetDeviceAddress buffers element_types =
    (if length buffers \<noteq> length element_types then
       Inl (Error kFailedPrecondition ''Mismatch in operand buffer counts.'')
     else Inr (ConvertToDeviceBuffers_loop GetDeviceAddress buffers element_types 0 []))"

subsection \<open>Collaborators and effects\<close>

text \<open>Pointers to objects of other subsystems are handles. A \<^verbatim>\<open>GlobalDeviceId\<close> is a
  64-bit integer.\<close>

type_synonym GlobalDeviceId = int64
type_synonym StreamExecutor = nat
type_synonym NcclCommHandle = nat
type_synonym NcclRegisteredBufferHandle = nat
type_synonym NcclCliqueIdCallback = nat

record Stream =
  stream_handle :: nat
  parent :: StreamExecutor

record NcclCliqueKey =
  devices :: "GlobalDeviceId list"
  key_stream_id :: int64

text \<open>The members of the parameter structures of thunk.h that this file reads.\<close>

record 'da CollectiveExecuteParams =
  global_device_id :: GlobalDeviceId
  device_assn :: 'da
  global_device_id_map :: "(int \<times> GlobalDeviceId) list option"
  run_id :: int64
  nccl_clique_id_callback :: "NcclCliqueIdCallback option"
  local_device_ordinal :: int

record InitializeParams =
  executor :: StreamExecutor

record 'da ExecuteParams =
  stream :: Stream
  async_comms_streams :: "Stream list"
  collective_params :: "'da CollectiveExecuteParams"

text \<open>The calls that the functions of this file make to their collaborators, in the
  order they are made.\<close>

datatype ('event, 'addr) Call =
    Event_ctor_call StreamExecutor
  | Event_Init_call StreamExecutor
  | RegisterBuffer_call NcclCommHandle 'addr
  | GetComm_call NcclCliqueKey nat
  | AcquireNcclComm_call "GlobalDeviceId list" nat nat int64
  | ThenWaitFor_stream_call Stream Stream
  | ThenWaitFor_event_call Stream 'event
  | ThenRecordEvent_call Stream 'event
  | BlockHostUntilDone_call Stream
  | RunNcclCollective_call Stream NcclCommHandle

text \<open>\<^verbatim>\<open>AsyncEvents\<close>: the map \<^verbatim>\<open>events_\<close> from executor to completion event. A
  name cannot end in an underscore here, so members lose the one they end in.\<close>

record 'event AsyncEvents =
  events :: "StreamExecutor \<rightharpoonup> 'event"

text \<open>The function-local static \<^verbatim>\<open>all_registered\<close> of \<^verbatim>\<open>MaybeRegisterBuffers\<close>.\<close>

record RegisteredBuffers =
  per_device_comms :: "int \<rightharpoonup> NcclCommHandle set"
  handles :: "NcclRegisteredBufferHandle list"

text \<open>The state a call runs in: the state of the collaborators (of a type this file does
  not know), the log of calls made to them, the \<^verbatim>\<open>AsyncEvents\<close> objects behind shared
  pointers with the number of objects allocated so far, and the process-wide
  registration table. Mutexes are not modelled: every function runs alone.\<close>

record ('w, 'event, 'addr) World =
  external :: 'w
  calls :: "('event, 'addr) Call list"
  objects :: "nat \<Rightarrow> 'event AsyncEvents"
  allocated :: nat
  all_registered :: RegisteredBuffers

text \<open>The collaborators: functions of other files, each a parameter.
  \<^verbatim>\<open>RunNcclCollective\<close> is the pure virtual method that the subclass of the thunk
  defines. The first four read no state; the others run in the state of the
  collaborators and may change it.\<close>

record ('w, 'event, 'addr, 'da) Externals =
  GetParticipatingDevices ::
    "GlobalDeviceId \<Rightarrow> 'da \<Rightarrow> ReplicaGroup list \<Rightarrow> CollectiveOpGroupMode \<Rightarrow>
     GlobalDeviceId list StatusOr"
  IsGlobalNcclConfig :: bool
  DeviceAssignment_replica_count :: "'da \<Rightarrow> int"
  GetNcclCliqueIdCallback ::
    "NcclCliqueIdCallback option \<Rightarrow> bool \<Rightarrow> NcclCliqueIdCallback StatusOr"
  GetComm :: "NcclCliqueKey \<Rightarrow> nat \<Rightarrow> 'w \<Rightarrow> NcclCommHandle StatusOr \<times> 'w"
  AcquireNcclComm ::
    "int64 \<Rightarrow> int64 \<Rightarrow> GlobalDeviceId list \<Rightarrow> nat \<Rightarrow> NcclCliqueIdCallback \<Rightarrow> nat \<Rightarrow>
     int64 \<Rightarrow> bool \<Rightarrow> 'w \<Rightarrow> NcclCommHandle StatusOr \<times> 'w"
  RegisterBuffer ::
    "NcclCommHandle \<Rightarrow> 'addr \<Rightarrow> 'w \<Rightarrow> NcclRegisteredBufferHandle StatusOr \<times> 'w"
  Event_ctor :: "StreamExecutor \<Rightarrow> 'w \<Rightarrow> 'event \<times> 'w"
  Event_Init :: "'event \<Rightarrow> 'w \<Rightarrow> (bool \<times> 'event) \<times> 'w"
  ThenWaitFor_stream :: "Stream \<Rightarrow> Stream \<Rightarrow> 'w \<Rightarrow> unit \<times> 'w"
  ThenWaitFor_event :: "Stream \<Rightarrow> 'event \<Rightarrow> 'w \<Rightarrow> unit \<times> 'w"
  ThenRecordEvent :: "Stream \<Rightarrow> 'event \<Rightarrow> 'w \<Rightarrow> unit \<times> 'w"
  BlockHostUntilDone :: "Stream \<Rightarrow> 'w \<Rightarrow> Status \<times> 'w"
  RunNcclCollective ::
    "'da ExecuteParams \<Rightarrow> Stream \<Rightarrow> NcclCommHandle \<Rightarrow> 'w \<Rightarrow> Status \<times> 'w"

text \<open>A call to a collaborator: it runs in the collaborators' state and is logged.\<close>

definition invoke ::
  "('event, 'addr) Call \<Rightarrow> ('w \<Rightarrow> 'r \<times> 'w) \<Rightarrow> ('w, 'event, 'addr) World \<Rightarrow>
   'r \<times> ('w, 'event, 'addr) World" where
  "invoke c f W =
    (case f (external W) of (r, w') \<Rightarrow> (r, W \<lparr> external := w', calls := calls W @ [c] \<rparr>))"

subsection \<open>Buffer registration\<close>

definition kCollectiveMemorySpaceColor :: int64 where
  "kCollectiveMemorySpaceColor = 1"

text \<open>\<^verbatim>\<open>all_registered.per_device_comms[device_ordinal]\<close>: \<^verbatim>\<open>operator[]\<close> of the hash map
  inserts an empty set for a key it does not hold.\<close>

definition per_device_comms_index ::
  "int \<Rightarrow> RegisteredBuffers \<Rightarrow> NcclCommHandle set \<times> RegisteredBuffers" where
  "per_device_comms_index device_ordinal R =
    (case per_device_comms R device_ordinal of
       None \<Rightarrow> ({}, R \<lparr> per_device_comms := (per_device_comms R)(device_ordinal \<mapsto> {}) \<rparr>)
     | Some comms \<Rightarrow> (comms, R))"

text \<open>The three statements that lines 334 to 338 and lines 341 to 345 share: register the
  buffer (returning the error if that fails), keep the handle, and insert the
  communicator into the set of the device.\<close>

definition register_and_record ::
  "('w, 'event, 'addr, 'da) Externals \<Rightarrow> int \<Rightarrow> NcclCommHandle \<Rightarrow> 'addr \<Rightarrow>
   ('w, 'event, 'addr) World \<Rightarrow> Status \<times> ('w, 'event, 'addr) World" where
  "register_and_record X device_ordinal comm buffer W =
    (case invoke (RegisterBuffer_call comm buffer) (RegisterBuffer X comm buffer) W of
       (Inl e, W1) \<Rightarrow> (Inl e, W1)
     | (Inr handle, W1) \<Rightarrow>
         (let R1 = (all_registered W1) \<lparr> handles := handles (all_registered W1) @ [handle] \<rparr>
          in case per_device_comms_index device_ordinal R1 of
               (comms, R2) \<Rightarrow>
                 (OkStatus,
                  W1 \<lparr> all_registered :=
                         R2 \<lparr> per_device_comms :=
                                (per_device_comms R2)(device_ordinal \<mapsto> insert comm comms) \<rparr> \<rparr>)))"

text \<open>The body of the loop of \<^verbatim>\<open>MaybeRegisterBuffers\<close>, lines 332 to 347, for one buffer.
  An error is the early return of \<^verbatim>\<open>TF_ASSIGN_OR_RETURN\<close>.\<close>

definition MaybeRegisterBuffers_body ::
  "('w, 'event, 'addr, 'da) Externals \<Rightarrow> int \<Rightarrow> 'addr DeviceBufferPair \<Rightarrow> NcclCommHandle \<Rightarrow>
   ('w, 'event, 'addr) World \<Rightarrow> Status \<times> ('w, 'event, 'addr) World" where
  "MaybeRegisterBuffers_body X device_ordinal buffer comm W =
    (case per_device_comms_index device_ordinal (all_registered W) of
       (comms, R1) \<Rightarrow>
         (let W1 = W \<lparr> all_registered := R1 \<rparr> in
          if comm \<notin> comms then
            (case (if DeviceBufferPair.source_memory_space buffer = kCollectiveMemorySpaceColor
                   then register_and_record X device_ordinal comm
                          (DeviceBufferPair.source_buffer buffer) W1
                   else (OkStatus, W1)) of
               (Inl e, W2) \<Rightarrow> (Inl e, W2)
             | (Inr u, W2) \<Rightarrow>
                 (if DeviceBufferPair.destination_memory_space buffer =
                       kCollectiveMemorySpaceColor
                  then register_and_record X device_ordinal comm
                         (DeviceBufferPair.destination_buffer buffer) W2
                  else (OkStatus, W2)))
          else (OkStatus, W1)))"

function MaybeRegisterBuffers_loop ::
  "('w, 'event, 'addr, 'da) Externals \<Rightarrow> int \<Rightarrow> 'addr DeviceBufferPair list \<Rightarrow>
   NcclCommHandle \<Rightarrow> nat \<Rightarrow> ('w, 'event, 'addr) World \<Rightarrow>
   Status \<times> ('w, 'event, 'addr) World" where
  "MaybeRegisterBuffers_loop X device_ordinal buffers comm i W =
    (if i < length buffers then
       (case MaybeRegisterBuffers_body X device_ordinal (buffers ! i) comm W of
          (Inl e, W1) \<Rightarrow> (Inl e, W1)
        | (Inr u, W1) \<Rightarrow> MaybeRegisterBuffers_loop X device_ordinal buffers comm (i + 1) W1)
     else (OkStatus, W))"
  by pat_completeness auto
termination
  by (relation "measure (\<lambda>(X, device_ordinal, buffers, comm, i, W). length buffers - i)") auto

declare MaybeRegisterBuffers_loop.simps [simp del]

text \<open>\<^verbatim>\<open>MaybeRegisterBuffers\<close>, lines 314 to 350.\<close>

definition MaybeRegisterBuffers ::
  "('w, 'event, 'addr, 'da) Externals \<Rightarrow> int \<Rightarrow> 'addr DeviceBufferPair list \<Rightarrow>
   NcclCommHandle \<Rightarrow> ('w, 'event, 'addr) World \<Rightarrow> Status \<times> ('w, 'event, 'addr) World" where
  "MaybeRegisterBuffers X device_ordinal buffers comm W =
     MaybeRegisterBuffers_loop X device_ordinal buffers comm 0 W"

subsection \<open>Asynchronous completion events\<close>

text \<open>\<^verbatim>\<open>try_emplace\<close> of the hash map inserts only under a key the map does not hold.\<close>

definition try_emplace :: "('k \<rightharpoonup> 'v) \<Rightarrow> 'k \<Rightarrow> 'v \<Rightarrow> ('k \<rightharpoonup> 'v)" where
  "try_emplace m k v = (case m k of None \<Rightarrow> m(k \<mapsto> v) | Some old \<Rightarrow> m)"

text \<open>\<^verbatim>\<open>NcclCollectiveThunk::AsyncEvents::Initialize\<close>, lines 352 to 365. The object the
  method is called on is \<open>self\<close>, returned as the call leaves it.\<close>

definition AsyncEvents_Initialize ::
  "('w, 'event, 'addr, 'da) Externals \<Rightarrow> StreamExecutor \<Rightarrow> 'event AsyncEvents \<Rightarrow>
   ('w, 'event, 'addr) World \<Rightarrow> Status \<times> 'event AsyncEvents \<times> ('w, 'event, 'addr) World" where
  "AsyncEvents_Initialize X executor' self W =
    (if events self executor' \<noteq> None then (OkStatus, self, W)
     else
       case invoke (Event_ctor_call executor') (Event_ctor X executor') W of
         (event, W1) \<Rightarrow>
           (case invoke (Event_Init_call executor') (Event_Init X event) W1 of
              ((ok, event1), W2) \<Rightarrow>
                if \<not> ok then
                  (Inl (Error kInternal
                     ''Failed to initialize collective operation async completion event''),
                   self, W2)
                else
                  (OkStatus,
                   self \<lparr> events := try_emplace (events self) executor' event1 \<rparr>, W2)))"

text \<open>\<^verbatim>\<open>NcclCollectiveThunk::AsyncEvents::GetEvent\<close>, lines 367 to 378. The pointer to the
  stored event is the stored event.\<close>

definition AsyncEvents_GetEvent ::
  "StreamExecutor \<Rightarrow> 'event AsyncEvents \<Rightarrow> ('w, 'event, 'addr) World \<Rightarrow>
   'event StatusOr \<times> 'event AsyncEvents \<times> ('w, 'event, 'addr) World" where
  "AsyncEvents_GetEvent executor' self W =
    (case events self executor' of
       None \<Rightarrow>
         (Inl (Error kInternal ''Collective operation async completion event not initialized''),
          self, W)
     | Some event \<Rightarrow> (Inr event, self, W))"

subsection \<open>Acquiring the communicator\<close>

text \<open>\<^verbatim>\<open>absl::c_find\<close> as the distance of the returned iterator from \<^verbatim>\<open>begin()\<close>: the index
  of the first element equal to the value, and the size of the container when there is
  none (the iterator \<^verbatim>\<open>end()\<close>).\<close>

fun c_find :: "'a list \<Rightarrow> 'a \<Rightarrow> nat" where
  "c_find [] v = 0"
| "c_find (x # xs) v = (if x = v then 0 else 1 + c_find xs v)"

text \<open>Modelled from the spec: \<^verbatim>\<open>NcclCliqueKey::rank\<close> is defined in nccl_clique_key.cc,
  which is not among the sources. The specification: the rank is the "zero-based position
  of the calling device within the ParticipantSet's canonical ordering"; a device that
  is not in the set has no rank.\<close>

definition NcclCliqueKey_rank :: "NcclCliqueKey \<Rightarrow> GlobalDeviceId \<Rightarrow> nat option" where
  "NcclCliqueKey_rank clique_key device_id =
    (if device_id \<in> set (devices clique_key)
     then Some (c_find (devices clique_key) device_id) else None)"

text \<open>\<^verbatim>\<open>GetNcclComm\<close>, lines 213 to 236. A parameter or local variable that has the name
  of a member of a structure is written with a prime. \<^verbatim>\<open>participants.size()\<close> is
  compared with the replica count as an integer. The cliques object on which \<^verbatim>\<open>GetComm\<close>
  is called is part of the collaborators' state.\<close>

definition GetNcclComm ::
  "('w, 'event, 'addr, 'da) Externals \<Rightarrow> 'da CollectiveExecuteParams \<Rightarrow> ReplicaGroup list \<Rightarrow>
   CollectiveOpGroupMode \<Rightarrow> int64 \<Rightarrow> ('w, 'event, 'addr) World \<Rightarrow>
   (fault + NcclCommHandle StatusOr) \<times> ('w, 'event, 'addr) World" where
  "GetNcclComm X params replica_groups' group_mode' stream_id W =
    (case GetParticipatingDevices X (global_device_id params) (device_assn params)
            replica_groups' group_mode' of
       Inl e \<Rightarrow> (Inr (Inl e), W)
     | Inr participants \<Rightarrow>
         if IsGlobalNcclConfig X \<and>
            int (length participants) \<noteq> DeviceAssignment_replica_count X (device_assn params)
         then
           (Inr (Inl (Error kInvalidArgument
              (''Partial replica groups are not allowed when using NCCL_COMM_ID '' @
               ''environment configuration.''))), W)
         else
           (let clique_key = \<lparr> devices = participants, key_stream_id = stream_id \<rparr>
            in case NcclCliqueKey_rank clique_key (global_device_id params) of
                 None \<Rightarrow> (Inl EmptyOptionalDeref, W)
               | Some rank \<Rightarrow>
                   (case invoke (GetComm_call clique_key rank) (GetComm X clique_key rank) W of
                      (r, W1) \<Rightarrow> (Inr r, W1))))"

text \<open>\<^verbatim>\<open>GetNumLocalParticipants\<close>, lines 505 to 513; \<open>None\<close> is the null pointer.\<close>

definition GetNumLocalParticipants ::
  "GlobalDeviceId list \<Rightarrow> GlobalDeviceId list option \<Rightarrow> nat" where
  "GetNumLocalParticipants participants local_devices =
    (case local_devices of
       None \<Rightarrow> length participants
     | Some locals \<Rightarrow> length (filter (\<lambda>device_id. device_id \<in> set locals) participants))"

text \<open>\<^verbatim>\<open>LockNcclComm\<close>, lines 240 to 285. \<^verbatim>\<open>TF_RET_CHECK\<close> returns an Internal error when
  its condition is false. The map \<^verbatim>\<open>global_device_id_map\<close> is the list of its entries
  in key order. Activating the executor context (lines 278 to 280) has no effect here.\<close>

definition LockNcclComm ::
  "('w, 'event, 'addr, 'da) Externals \<Rightarrow> 'da CollectiveExecuteParams \<Rightarrow> ReplicaGroup list \<Rightarrow>
   CollectiveOpGroupMode \<Rightarrow> int64 \<Rightarrow> int64 \<Rightarrow> bool \<Rightarrow> ('w, 'event, 'addr) World \<Rightarrow>
   NcclCommHandle StatusOr \<times> ('w, 'event, 'addr) World" where
  "LockNcclComm X params replica_groups' group_mode' op_id' stream_id
       enable_clique_optimization W =
    (case GetParticipatingDevices X (global_device_id params) (device_assn params)
            replica_groups' group_mode' of
       Inl e \<Rightarrow> (Inl e, W)
     | Inr participants \<Rightarrow>
         if IsGlobalNcclConfig X \<and>
            int (length participants) \<noteq> DeviceAssignment_replica_count X (device_assn params)
         then
           (Inl (Error kInvalidArgument
              (''Partial replica groups are not allowed when using NCCL_COMM_ID '' @
               ''environment configuration.'')), W)
         else
           (let it = c_find participants (global_device_id params) in
            if \<not> it \<noteq> length participants then
              (Inl (Error kInternal ''RET_CHECK failure it != participants.end()''), W)
            else
              (let rank = it;
                   local_devices =
                     (case global_device_id_map params of
                        None \<Rightarrow> []
                      | Some entries \<Rightarrow> map snd entries);
                   num_local_participants =
                     GetNumLocalParticipants participants
                       (case global_device_id_map params of
                          None \<Rightarrow> None
                        | Some entries \<Rightarrow> Some local_devices);
                   is_local = (length participants = num_local_participants)
               in case GetNcclCliqueIdCallback X (nccl_clique_id_callback params) is_local of
                    Inl e \<Rightarrow> (Inl e, W)
                  | Inr clique_id_callback \<Rightarrow>
                      invoke
                        (AcquireNcclComm_call participants num_local_participants rank
                           stream_id)
                        (AcquireNcclComm X (run_id params) op_id' participants
                           num_local_participants clique_id_callback rank stream_id
                           enable_clique_optimization) W)))"

subsection \<open>The thunks\<close>

text \<open>A \<^verbatim>\<open>NcclCollectiveThunk\<close>: its two data members, and what its subclass answers to the
  virtual calls \<^verbatim>\<open>config()\<close>, \<^verbatim>\<open>GetStreamId()\<close> and \<^verbatim>\<open>GetAsyncStreamKind()\<close>. The shared
  pointer \<^verbatim>\<open>async_events_\<close> is the address of an object of the state, or null (\<open>None\<close>).\<close>

record NcclCollectiveThunk =
  config :: NcclCollectiveConfig
  GetStreamId :: int64
  GetAsyncStreamKind :: nat
  async_events :: "nat option"
  first_call_to_execute :: bool

text \<open>\<^verbatim>\<open>IsAsync()\<close> of the header: the thunk is asynchronous when it holds events, which is
  how the constructor sets \<^verbatim>\<open>async_events_\<close> from \<^verbatim>\<open>is_sync\<close>.\<close>

definition IsAsync :: "NcclCollectiveThunk \<Rightarrow> bool" where
  "IsAsync thunk = (async_events thunk \<noteq> None)"

text \<open>The constructor, lines 207 to 211; \<^verbatim>\<open>new AsyncEvents()\<close> allocates an object with no
  event. Modelled from the spec: the initial value of \<^verbatim>\<open>first_call_to_execute_\<close> is given
  in the header, which is not among the sources; the specification has the host
  synchronization happen "on the very first execution of a given Executor instance", so
  the member starts true.\<close>

definition NcclCollectiveThunk_ctor ::
  "NcclCollectiveConfig \<Rightarrow> int64 \<Rightarrow> nat \<Rightarrow> bool \<Rightarrow> ('w, 'event, 'addr) World \<Rightarrow>
   NcclCollectiveThunk \<times> ('w, 'event, 'addr) World" where
  "NcclCollectiveThunk_ctor cfg stream_id stream_kind is_sync W =
    (if is_sync then
       (\<lparr> config = cfg, GetStreamId = stream_id, GetAsyncStreamKind = stream_kind,
          async_events = None, first_call_to_execute = True \<rparr>, W)
     else
       (\<lparr> config = cfg, GetStreamId = stream_id, GetAsyncStreamKind = stream_kind,
          async_events = Some (allocated W), first_call_to_execute = True \<rparr>,
        W \<lparr> objects := (objects W)(allocated W := \<lparr> events = Map.empty \<rparr>),
            allocated := allocated W + 1 \<rparr>))"

text \<open>\<^verbatim>\<open>NcclCollectiveThunk::Initialize\<close>, lines 407 to 412.\<close>

definition Initialize ::
  "('w, 'event, 'addr, 'da) Externals \<Rightarrow> NcclCollectiveThunk \<Rightarrow> InitializeParams \<Rightarrow>
   ('w, 'event, 'addr) World \<Rightarrow> Status \<times> ('w, 'event, 'addr) World" where
  "Initialize X thunk params W =
    (case async_events thunk of
       None \<Rightarrow> (OkStatus, W)
     | Some a \<Rightarrow>
         (case AsyncEvents_Initialize X (executor params) (objects W a) W of
            (status, self, W1) \<Rightarrow>
              (let W2 = W1 \<lparr> objects := (objects W1)(a := self) \<rparr>
               in case status of
                    Inl e \<Rightarrow> (Inl e, W2)
                  | Inr u \<Rightarrow> (OkStatus, W2))))"

text \<open>\<^verbatim>\<open>NcclCollectiveThunk::ExecuteOnStream\<close>, lines 426 to 442: the collective is launched
  on the asynchronous stream or on the main stream. The branch \<^verbatim>\<open>IsAsync()\<close> is the one in
  which \<^verbatim>\<open>async_events_\<close> is not null.\<close>

definition ExecuteOnStream_launch ::
  "('w, 'event, 'addr, 'da) Externals \<Rightarrow> NcclCollectiveThunk \<Rightarrow> 'da ExecuteParams \<Rightarrow>
   NcclCommHandle \<Rightarrow> ('w, 'event, 'addr) World \<Rightarrow>
   (fault + Status) \<times> ('w, 'event, 'addr) World" where
  "ExecuteOnStream_launch X thunk params comm W =
    (let executor' = parent (stream params);
         async_stream_idx = GetAsyncStreamKind thunk
     in case async_events thunk of
          Some a \<Rightarrow>
            if \<not> async_stream_idx < length (async_comms_streams params) then
              (Inl IndexOutOfRange, W)
            else
              (let async_stream = async_comms_streams params ! async_stream_idx
               in case invoke (ThenWaitFor_stream_call async_stream (stream params))
                         (ThenWaitFor_stream X async_stream (stream params)) W of
                    (u, W1) \<Rightarrow>
                      (case invoke (RunNcclCollective_call async_stream comm)
                              (RunNcclCollective X params async_stream comm) W1 of
                         (Inl e, W2) \<Rightarrow> (Inr (Inl e), W2)
                       | (Inr u, W2) \<Rightarrow>
                           (case AsyncEvents_GetEvent executor' (objects W2 a) W2 of
                              (Inl e, self, W3) \<Rightarrow>
                                (Inr (Inl e), W3 \<lparr> objects := (objects W3)(a := self) \<rparr>)
                            | (Inr event, self, W3) \<Rightarrow>
                                (case invoke (ThenRecordEvent_call async_stream event)
                                        (ThenRecordEvent X async_stream event)
                                        (W3 \<lparr> objects := (objects W3)(a := self) \<rparr>) of
                                   (u, W4) \<Rightarrow> (Inr OkStatus, W4)))))
        | None \<Rightarrow>
            (case invoke (RunNcclCollective_call (stream params) comm)
                    (RunNcclCollective X params (stream params) comm) W of
               (Inl e, W1) \<Rightarrow> (Inr (Inl e), W1)
             | (Inr u, W1) \<Rightarrow> (Inr OkStatus, W1)))"

text \<open>\<^verbatim>\<open>NcclCollectiveThunk::ExecuteOnStream\<close>, lines 414 to 459. The thunk is returned as
  the call leaves it.\<close>

definition ExecuteOnStream ::
  "('w, 'event, 'addr, 'da) Externals \<Rightarrow> NcclCollectiveThunk \<Rightarrow> 'da ExecuteParams \<Rightarrow>
   ('w, 'event, 'addr) World \<Rightarrow>
   (fault + Status) \<times> NcclCollectiveThunk \<times> ('w, 'event, 'addr) World" where
  "ExecuteOnStream X thunk params W =
    (let stream_id = GetStreamId thunk
     in case GetNcclComm X (collective_params params) (replica_groups (config thunk))
               (group_mode (config thunk)) stream_id W of
          (Inl f, W1) \<Rightarrow> (Inl f, thunk, W1)
        | (Inr (Inl e), W1) \<Rightarrow> (Inr (Inl e), thunk, W1)
        | (Inr (Inr comm), W1) \<Rightarrow>
            (case ExecuteOnStream_launch X thunk params comm W1 of
               (Inl f, W2) \<Rightarrow> (Inl f, thunk, W2)
             | (Inr (Inl e), W2) \<Rightarrow> (Inr (Inl e), thunk, W2)
             | (Inr (Inr u), W2) \<Rightarrow>
                 if first_call_to_execute thunk then
                   (let stream' =
                          (if IsAsync thunk
                           then async_comms_streams params ! GetAsyncStreamKind thunk
                           else stream params)
                    in case invoke (BlockHostUntilDone_call stream')
                              (BlockHostUntilDone X stream') W2 of
                         (Inl e, W3) \<Rightarrow> (Inr (Inl e), thunk, W3)
                       | (Inr u, W3) \<Rightarrow>
                           (Inr OkStatus, thunk \<lparr> first_call_to_execute := False \<rparr>, W3))
                 else (Inr OkStatus, thunk, W2)))"

text \<open>\<^verbatim>\<open>NcclCollectiveDoneThunk\<close>: its constructor, lines 473 to 476, and
  \<^verbatim>\<open>ExecuteOnStream\<close>, lines 478 to 484.\<close>

record NcclCollectiveDoneThunk =
  done_async_events :: "nat option"

definition NcclCollectiveDoneThunk_ctor :: "nat option \<Rightarrow> NcclCollectiveDoneThunk" where
  "NcclCollectiveDoneThunk_ctor async_events' = \<lparr> done_async_events = async_events' \<rparr>"

definition NcclCollectiveDoneThunk_ExecuteOnStream ::
  "('w, 'event, 'addr, 'da) Externals \<Rightarrow> NcclCollectiveDoneThunk \<Rightarrow> 'da ExecuteParams \<Rightarrow>
   ('w, 'event, 'addr) World \<Rightarrow> (fault + Status) \<times> ('w, 'event, 'addr) World" where
  "NcclCollectiveDoneThunk_ExecuteOnStream X thunk params W =
    (let executor' = parent (stream params)
     in case done_async_events thunk of
          None \<Rightarrow> (Inl NullPointerDeref, W)
        | Some a \<Rightarrow>
            (case AsyncEvents_GetEvent executor' (objects W a) W of
               (Inl e, self, W1) \<Rightarrow> (Inr (Inl e), W1 \<lparr> objects := (objects W1)(a := self) \<rparr>)
             | (Inr event, self, W1) \<Rightarrow>
                 (case invoke (ThenWaitFor_event_call (stream params) event)
                         (ThenWaitFor_event X (stream params) event)
                         (W1 \<lparr> objects := (objects W1)(a := self) \<rparr>) of
                    (u, W2) \<Rightarrow> (Inr OkStatus, W2))))"

subsection \<open>Sequences of calls on one thunk\<close>

text \<open>A caller of a thunk makes calls of \<^verbatim>\<open>Initialize\<close> and \<^verbatim>\<open>ExecuteOnStream\<close> one after
  the other. Each call yields its outcome and the calls it made to collaborators. A call
  that ends in a fault is the last one.\<close>

datatype 'da ThunkCall =
    Initialize_call InitializeParams
  | ExecuteOnStream_call "'da ExecuteParams"

fun run_calls ::
  "('w, 'event, 'addr, 'da) Externals \<Rightarrow> 'da ThunkCall list \<Rightarrow> NcclCollectiveThunk \<Rightarrow>
   ('w, 'event, 'addr) World \<Rightarrow>
   ((fault + Status) \<times> ('event, 'addr) Call list) list \<times> NcclCollectiveThunk \<times>
   ('w, 'event, 'addr) World" where
  "run_calls X [] thunk W = ([], thunk, W)"
| "run_calls X (Initialize_call p # cs) thunk W =
    (case Initialize X thunk p W of
       (status, W1) \<Rightarrow>
         (case run_calls X cs thunk W1 of
            (rs, thunk2, W2) \<Rightarrow>
              ((Inr status, drop (length (calls W)) (calls W1)) # rs, thunk2, W2)))"
| "run_calls X (ExecuteOnStream_call p # cs) thunk W =
    (case ExecuteOnStream X thunk p W of
       (Inl f, thunk1, W1) \<Rightarrow> ([(Inl f, drop (length (calls W)) (calls W1))], thunk1, W1)
     | (Inr status, thunk1, W1) \<Rightarrow>
         (case run_calls X cs thunk1 W1 of
            (rs, thunk2, W2) \<Rightarrow>
              ((Inr status, drop (length (calls W)) (calls W1)) # rs, thunk2, W2)))"

text \<open>The streams on which a list of calls blocks the host, in order.\<close>

fun host_blocks :: "('event, 'addr) Call list \<Rightarrow> Stream list" where
  "host_blocks [] = []"
| "host_blocks (BlockHostUntilDone_call s # cs) = s # host_blocks cs"
| "host_blocks (c # cs) = host_blocks cs"

text \<open>The stream a thunk issues its collective on: the asynchronous stream of its kind
  for an asynchronous thunk, the main stream for a synchronous one.\<close>

definition issuing_stream :: "NcclCollectiveThunk \<Rightarrow> 'da ExecuteParams \<Rightarrow> Stream" where
  "issuing_stream thunk params =
    (if IsAsync thunk then async_comms_streams params ! GetAsyncStreamKind thunk
     else stream params)"

text \<open>Whether the registration table holds a communicator under a device.\<close>

definition registered :: "RegisteredBuffers \<Rightarrow> int \<Rightarrow> NcclCommHandle \<Rightarrow> bool" where
  "registered R device_ordinal comm =
    (case per_device_comms R device_ordinal of
       None \<Rightarrow> False
     | Some comms \<Rightarrow> comm \<in> comms)"

text \<open>The message of the InvalidArgument error of \<^verbatim>\<open>GetNcclComm\<close> and \<^verbatim>\<open>LockNcclComm\<close>.\<close>

definition partial_groups_message :: string where
  "partial_groups_message =
     ''Partial replica groups are not allowed when using NCCL_COMM_ID '' @
     ''environment configuration.''"

subsection \<open>Concrete inputs\<close>

definition scenario_one_group :: NcclCollectiveConfig where
  "scenario_one_group =
    \<lparr> operand_count = 1, operand_element_type = [F32],
      replica_groups = [\<lparr>replica_ids = [0, 1, 2, 3]\<rparr>],
      collective_op_kind = kCrossReplicaKind, op_id = 0, group_mode = kCrossReplica \<rparr>"

definition scenario_singletons :: NcclCollectiveConfig where
  "scenario_singletons =
    scenario_one_group \<lparr> replica_groups :=
      [\<lparr>replica_ids = [0]\<rparr>, \<lparr>replica_ids = [1]\<rparr>, \<lparr>replica_ids = [2]\<rparr>, \<lparr>replica_ids = [3]\<rparr>] \<rparr>"

definition example_deps :: "(bool, Shape) ShapeDeps" where
  "example_deps =
    \<lparr> IsReductionCollective = (\<lambda>kind. kind),
      IsDenseArray = (\<lambda>shape. True),
      ToString = (\<lambda>shape. ''shape''),
      LowercasePrimitiveTypeName = (\<lambda>ty. ''type'') \<rparr>"

definition example_buffers :: "nat Buffer list" where
  "example_buffers =
    [\<lparr> Buffer.element_count = 8, Buffer.source_buffer = 0, Buffer.destination_buffer = 1,
       Buffer.source_memory_space = 0, Buffer.destination_memory_space = 1 \<rparr>,
     \<lparr> Buffer.element_count = 16, Buffer.source_buffer = 2, Buffer.destination_buffer = 3,
       Buffer.source_memory_space = 1, Buffer.destination_memory_space = 0 \<rparr>]"

text \<open>Collaborators for the concrete runs: the state is a counter from which events and
  registration handles are numbered, a device assignment is its replica count, and
  whether an event initializes is the first parameter.\<close>

definition example_externals :: "bool \<Rightarrow> (nat, nat, nat, int) Externals" where
  "example_externals init_ok =
    \<lparr> GetParticipatingDevices = (\<lambda>device_id da groups mode. Inr [10, 11, 12, 13]),
      IsGlobalNcclConfig = True,
      DeviceAssignment_replica_count = (\<lambda>da. da),
      GetNcclCliqueIdCallback = (\<lambda>callback is_local. Inr 0),
      GetComm = (\<lambda>clique_key rank w. (Inr (100 + rank), w)),
      AcquireNcclComm =
        (\<lambda>run op participants num_local callback rank stream_id opt w. (Inr (200 + rank), w)),
      RegisterBuffer = (\<lambda>comm buffer w. (Inr w, w + 1)),
      Event_ctor = (\<lambda>ex w. (w, w + 1)),
      Event_Init = (\<lambda>event w. ((init_ok, event), w)),
      ThenWaitFor_stream = (\<lambda>s1 s2 w. ((), w)),
      ThenWaitFor_event = (\<lambda>s event w. ((), w)),
      ThenRecordEvent = (\<lambda>s event w. ((), w)),
      BlockHostUntilDone = (\<lambda>s w. (OkStatus, w)),
      RunNcclCollective = (\<lambda>params s comm w. (OkStatus, w)) \<rparr>"

definition example_world :: "(nat, nat, nat) World" where
  "example_world =
    \<lparr> external = 0, calls = [], objects = (\<lambda>a. \<lparr> events = Map.empty \<rparr>), allocated = 0,
      all_registered = \<lparr> per_device_comms = Map.empty, handles = [] \<rparr> \<rparr>"

definition example_collective_params :: "int CollectiveExecuteParams" where
  "example_collective_params =
    \<lparr> global_device_id = 12, device_assn = 4, global_device_id_map = None, run_id = 1,
      nccl_clique_id_callback = None, local_device_ordinal = 2 \<rparr>"

definition main_stream :: Stream where
  "main_stream = \<lparr> stream_handle = 0, parent = 7 \<rparr>"

definition comms_stream :: Stream where
  "comms_stream = \<lparr> stream_handle = 1, parent = 7 \<rparr>"

definition example_params :: "int ExecuteParams" where
  "example_params =
    \<lparr> stream = main_stream, async_comms_streams = [comms_stream],
      collective_params = example_collective_params \<rparr>"

text \<open>A freshly constructed asynchronous thunk, and a caller that initializes it and
  executes it twice.\<close>

definition fresh_thunk :: "NcclCollectiveThunk \<times> (nat, nat, nat) World" where
  "fresh_thunk = NcclCollectiveThunk_ctor scenario_one_group 0 0 False example_world"

definition example_thunk_calls :: "int ThunkCall list" where
  "example_thunk_calls =
     [Initialize_call \<lparr> executor = 7 \<rparr>, ExecuteOnStream_call example_params,
      ExecuteOnStream_call example_params]"

text \<open>A synchronous thunk, and collaborators whose first collective fails.\<close>

definition sync_thunk :: "NcclCollectiveThunk \<times> (nat, nat, nat) World" where
  "sync_thunk = NcclCollectiveThunk_ctor scenario_one_group 0 0 True example_world"

definition flaky_externals :: "(nat, nat, nat, int) Externals" where
  "flaky_externals =
    (example_externals True)
      \<lparr> RunNcclCollective :=
          (\<lambda>params s comm w.
             (if w = 0 then Inl (Error kUnknown ''transport failure'') else OkStatus, w + 1)) \<rparr>"

text \<open>Device buffers in the collective memory space, and the state after they have been
  registered for communicator 5 on device 0.\<close>

definition example_device_buffers :: "nat DeviceBufferPair list" where
  "example_device_buffers =
    [\<lparr> DeviceBufferPair.element_type = F32, element_count = 8,
       source_buffer = 100, destination_buffer = 101,
       source_memory_space = 1, destination_memory_space = 1 \<rparr>,
     \<lparr> DeviceBufferPair.element_type = S8, element_count = 16,
       source_buffer = 102, destination_buffer = 103,
       source_memory_space = 1, destination_memory_space = 0 \<rparr>]"

definition example_registered_world :: "(nat, nat, nat) World" where
  "example_registered_world =
     example_world \<lparr> external := 2,
       calls := [RegisterBuffer_call 5 100, RegisterBuffer_call 5 101],
       all_registered := \<lparr> per_device_comms = [0 \<mapsto> {5}], handles = [0, 1] \<rparr> \<rparr>"

subsection \<open>The degeneracy table of the specification\<close>

text \<open>The specification's table speaks of "all groups singleton" and, as a case of its
  own, of "groups empty": a list of groups is all-singleton when it has a group and each
  of its groups has exactly one member.\<close>

definition all_singleton :: "ReplicaGroup list \<Rightarrow> bool" where
  "all_singleton groups = (groups \<noteq> [] \<and> (\<forall>g \<in> set groups. length (replica_ids g) = 1))"

definition degenerate_table ::
  "CollectiveOpGroupMode \<Rightarrow> ReplicaGroup list \<Rightarrow> int64 \<Rightarrow> int64 \<Rightarrow> bool" where
  "degenerate_table mode groups replicaCount partitionCount =
    (case mode of
       kCrossReplica \<Rightarrow> all_singleton groups \<or> (groups = [] \<and> replicaCount = 1)
     | kCrossPartition \<Rightarrow> all_singleton groups \<or> (groups = [] \<and> partitionCount = 1)
     | kCrossReplicaAndPartition \<Rightarrow>
         (all_singleton groups \<and> partitionCount = 1) \<or>
         (groups = [] \<and> replicaCount = 1 \<and> partitionCount = 1)
     | kFlattenedID \<Rightarrow> all_singleton groups)"

section \<open>Theorems\<close>

subsection \<open>Degeneracy\<close>

lemma all_groups_singleton_iff:
  "(groups \<noteq> [] \<and> list_all (\<lambda>g. replica_ids_size g = 1) groups) = all_singleton groups"
  by (simp add: all_singleton_def list_all_iff replica_ids_size_def)

text \<open>
  C1. For every replica count, partition count and group mode, \<^verbatim>\<open>IsDegenerate\<close> returns
  the value of the specification's table: for the modes CrossReplica, CrossPartition and
  CrossReplicaAndPartition on every list of groups, and for FlattenedId whenever the
  groups are not empty (the table's precondition for that mode).
\<close>

theorem IsDegenerate_matches_table:
  "group_mode cfg \<noteq> kFlattenedID \<or> replica_groups cfg \<noteq> [] \<Longrightarrow>
   IsDegenerate cfg replica_count partition_count =
     Inr (degenerate_table (group_mode cfg) (replica_groups cfg)
            replica_count partition_count)"
  unfolding IsDegenerate_def degenerate_table_def Let_def all_groups_singleton_iff
  by (cases "group_mode cfg") auto

theorem IsDegenerate_matches_table_witness:
  "IsDegenerate scenario_one_group 4 1 = Inr False \<and>
   IsDegenerate scenario_singletons 4 1 = Inr True \<and>
   IsDegenerate (scenario_one_group \<lparr> replica_groups := [] \<rparr>) 1 1 = Inr True \<and>
   IsDegenerate (scenario_one_group \<lparr> replica_groups := [] \<rparr>) 4 1 = Inr False \<and>
   IsDegenerate (scenario_singletons \<lparr> group_mode := kFlattenedID \<rparr>) 4 1 = Inr True \<and>
   IsDegenerate (scenario_singletons \<lparr> group_mode := kCrossReplicaAndPartition \<rparr>) 4 2
     = Inr False"
  using IsDegenerate_matches_table [of scenario_one_group 4 1]
        IsDegenerate_matches_table [of scenario_singletons 4 1]
        IsDegenerate_matches_table [of "scenario_one_group \<lparr> replica_groups := [] \<rparr>" 1 1]
        IsDegenerate_matches_table [of "scenario_one_group \<lparr> replica_groups := [] \<rparr>" 4 1]
        IsDegenerate_matches_table [of "scenario_singletons \<lparr> group_mode := kFlattenedID \<rparr>" 4 1]
        IsDegenerate_matches_table
          [of "scenario_singletons \<lparr> group_mode := kCrossReplicaAndPartition \<rparr>" 4 2]
  by (simp add: scenario_one_group_def scenario_singletons_def degenerate_table_def
        all_singleton_def)

text \<open>
  C7. In FlattenedId mode the degeneracy check aborts on its \<^verbatim>\<open>CHECK\<close> exactly when the
  replica groups are empty: with empty groups it returns no boolean, and with groups
  present the assertion does not fire and a boolean is returned.
\<close>

theorem IsDegenerate_flattened_id_check:
  "group_mode cfg = kFlattenedID \<Longrightarrow>
   (replica_groups cfg = [] \<longrightarrow>
      IsDegenerate cfg replica_count partition_count =
        Inl (CheckFailure ''replica groups cannot be empty if use_global_device_ids = true'')) \<and>
   (replica_groups cfg \<noteq> [] \<longrightarrow>
      (\<exists>b. IsDegenerate cfg replica_count partition_count = Inr b))"
  by (simp add: IsDegenerate_def)

theorem IsDegenerate_flattened_id_check_witness:
  "IsDegenerate (scenario_singletons \<lparr> group_mode := kFlattenedID, replica_groups := [] \<rparr>) 4 1
     = Inl (CheckFailure ''replica groups cannot be empty if use_global_device_ids = true'') \<and>
   (\<exists>b. IsDegenerate (scenario_one_group \<lparr> group_mode := kFlattenedID \<rparr>) 4 1 = Inr b)"
  using IsDegenerate_flattened_id_check
          [of "scenario_singletons \<lparr> group_mode := kFlattenedID, replica_groups := [] \<rparr>" 4 1]
        IsDegenerate_flattened_id_check
          [of "scenario_one_group \<lparr> group_mode := kFlattenedID \<rparr>" 4 1]
  by (simp add: scenario_one_group_def scenario_singletons_def)

subsection \<open>Operand validation\<close>

text \<open>
  C2. \<^verbatim>\<open>IsValidOperand\<close> returns Ok if and only if the shape is a dense array and its
  element type is supported by the transport for the operation kind. For a dense shape
  of one of the narrow types S16, U16, F8E5M2, F8E4M3FN it returns Ok exactly when the
  kind is not a reduction collective; for a dense shape of one of the thirteen other
  listed types it returns Ok; and for an element type outside the list it returns an
  Unimplemented error whatever the kind.
\<close>

theorem IsValidOperand_ok_iff:
  "(IsValidOperand deps shape reduction_op = OkStatus \<longleftrightarrow>
      IsDenseArray deps shape \<and>
      IsTypeSupportedByNccl (IsReductionCollective deps) (Shape.element_type shape)
        reduction_op) \<and>
   (IsDenseArray deps shape \<and> Shape.element_type shape \<in> {S16, U16, F8E5M2, F8E4M3FN} \<longrightarrow>
      (IsValidOperand deps shape reduction_op = OkStatus \<longleftrightarrow>
         \<not> IsReductionCollective deps reduction_op)) \<and>
   (IsDenseArray deps shape \<and>
    Shape.element_type shape \<in>
      {S8, PRED, U8, S32, U32, S64, U64, F16, F32, F64, BF16, C64, C128} \<longrightarrow>
      IsValidOperand deps shape reduction_op = OkStatus) \<and>
   (Shape.element_type shape \<notin>
      {S8, PRED, U8, S32, U32, S64, U64, F16, F32, F64, BF16, C64, C128,
       S16, U16, F8E5M2, F8E4M3FN} \<longrightarrow>
      (\<exists>msg. IsValidOperand deps shape reduction_op = Inl (Error kUnimplemented msg)))"
  by (cases "Shape.element_type shape") (auto simp add: IsValidOperand_def)

theorem IsValidOperand_ok_iff_witness:
  "IsValidOperand example_deps \<lparr> Shape.element_type = S16 \<rparr> False = OkStatus \<and>
   IsValidOperand example_deps \<lparr> Shape.element_type = S16 \<rparr> True \<noteq> OkStatus \<and>
   IsValidOperand example_deps \<lparr> Shape.element_type = F32 \<rparr> True = OkStatus \<and>
   (\<exists>msg. IsValidOperand example_deps \<lparr> Shape.element_type = OtherPrimitiveType 0 \<rparr> False
      = Inl (Error kUnimplemented msg))"
  using IsValidOperand_ok_iff [of example_deps "\<lparr> Shape.element_type = S16 \<rparr>" False]
        IsValidOperand_ok_iff [of example_deps "\<lparr> Shape.element_type = S16 \<rparr>" True]
        IsValidOperand_ok_iff [of example_deps "\<lparr> Shape.element_type = F32 \<rparr>" True]
        IsValidOperand_ok_iff
          [of example_deps "\<lparr> Shape.element_type = OtherPrimitiveType 0 \<rparr>" False]
  by (simp add: example_deps_def)

subsection \<open>Device buffers\<close>

lemma ConvertToDeviceBuffers_loop_eq:
  "length buffers = length element_types \<Longrightarrow> i \<le> length buffers \<Longrightarrow>
   ConvertToDeviceBuffers_loop GetDeviceAddress buffers element_types i device_buffers =
   device_buffers @
   map (\<lambda>j. \<lparr> DeviceBufferPair.element_type = element_types ! j,
              element_count = Buffer.element_count (buffers ! j),
              source_buffer = GetDeviceAddress (Buffer.source_buffer (buffers ! j)),
              destination_buffer = GetDeviceAddress (Buffer.destination_buffer (buffers ! j)),
              source_memory_space = Buffer.source_memory_space (buffers ! j),
              destination_memory_space = Buffer.destination_memory_space (buffers ! j) \<rparr>)
       [i..<length buffers]"
proof (induction GetDeviceAddress buffers element_types i device_buffers
       rule: ConvertToDeviceBuffers_loop.induct)
  case (1 GetDeviceAddress buffers element_types i device_buffers)
  show ?case
  proof (cases "i < length buffers")
    case True
    then have "[i..<length buffers] = i # [i + 1..<length buffers]"
      by (simp add: upt_conv_Cons)
    with True 1 show ?thesis
      by (subst ConvertToDeviceBuffers_loop.simps) simp
  next
    case False
    with 1 show ?thesis
      by (subst ConvertToDeviceBuffers_loop.simps) simp
  qed
qed

text \<open>
  C10. \<^verbatim>\<open>ConvertToDeviceBuffers\<close> returns a FailedPrecondition error if and only if the
  buffer list and the element type list differ in length. Otherwise it returns a vector
  as long as its inputs whose i-th pair holds the i-th element type and the i-th
  buffer's element count, resolved source and destination addresses and memory space
  tags.
\<close>

theorem ConvertToDeviceBuffers_result:
  "((\<exists>msg. ConvertToDeviceBuffers GetDeviceAddress buffers element_types =
             Inl (Error kFailedPrecondition msg)) \<longleftrightarrow>
      length buffers \<noteq> length element_types) \<and>
   (length buffers = length element_types \<longrightarrow>
      (\<exists>device_buffers.
         ConvertToDeviceBuffers GetDeviceAddress buffers element_types = Inr device_buffers \<and>
         length device_buffers = length buffers \<and>
         (\<forall>i < length buffers.
            device_buffers ! i =
              \<lparr> DeviceBufferPair.element_type = element_types ! i,
                element_count = Buffer.element_count (buffers ! i),
                source_buffer = GetDeviceAddress (Buffer.source_buffer (buffers ! i)),
                destination_buffer =
                  GetDeviceAddress (Buffer.destination_buffer (buffers ! i)),
                source_memory_space = Buffer.source_memory_space (buffers ! i),
                destination_memory_space =
                  Buffer.destination_memory_space (buffers ! i) \<rparr>)))"
  by (simp add: ConvertToDeviceBuffers_def ConvertToDeviceBuffers_loop_eq)

theorem ConvertToDeviceBuffers_result_witness:
  "ConvertToDeviceBuffers (\<lambda>slice. 100 + slice) example_buffers [F32] =
     Inl (Error kFailedPrecondition ''Mismatch in operand buffer counts.'') \<and>
   ConvertToDeviceBuffers (\<lambda>slice. 100 + slice) example_buffers [F32, S8] =
     Inr [\<lparr> DeviceBufferPair.element_type = F32, element_count = 8,
             source_buffer = 100, destination_buffer = 101,
             source_memory_space = 0, destination_memory_space = 1 \<rparr>,
          \<lparr> DeviceBufferPair.element_type = S8, element_count = 16,
             source_buffer = 102, destination_buffer = 103,
             source_memory_space = 1, destination_memory_space = 0 \<rparr>]"
proof -
  have len: "length example_buffers = 2"
    by (simp add: example_buffers_def)
  from ConvertToDeviceBuffers_result
         [where GetDeviceAddress = "\<lambda>slice. 100 + slice" and buffers = example_buffers
            and element_types = "[F32]"]
  have mismatch: "\<exists>msg. ConvertToDeviceBuffers (\<lambda>slice. 100 + slice) example_buffers [F32] =
                   Inl (Error kFailedPrecondition msg)"
    by (simp add: len)
  from ConvertToDeviceBuffers_result
         [where GetDeviceAddress = "\<lambda>slice. 100 + slice" and buffers = example_buffers
            and element_types = "[F32, S8]"]
  obtain device_buffers where
    r: "ConvertToDeviceBuffers (\<lambda>slice. 100 + slice) example_buffers [F32, S8] =
          Inr device_buffers"
    and l: "length device_buffers = 2"
    and e: "\<forall>i < 2. device_buffers ! i =
              \<lparr> DeviceBufferPair.element_type = [F32, S8] ! i,
                element_count = Buffer.element_count (example_buffers ! i),
                source_buffer = 100 + Buffer.source_buffer (example_buffers ! i),
                destination_buffer = 100 + Buffer.destination_buffer (example_buffers ! i),
                source_memory_space = Buffer.source_memory_space (example_buffers ! i),
                destination_memory_space =
                  Buffer.destination_memory_space (example_buffers ! i) \<rparr>"
    by (auto simp add: len)
  from l obtain a b where ab: "device_buffers = [a, b]"
    by (cases device_buffers; cases "tl device_buffers") auto
  from e [rule_format, of 0] e [rule_format, of 1] ab
  have "device_buffers =
     [\<lparr> DeviceBufferPair.element_type = F32, element_count = 8,
             source_buffer = 100, destination_buffer = 101,
             source_memory_space = 0, destination_memory_space = 1 \<rparr>,
          \<lparr> DeviceBufferPair.element_type = S8, element_count = 16,
             source_buffer = 102, destination_buffer = 103,
             source_memory_space = 1, destination_memory_space = 0 \<rparr>]"
    by (simp add: example_buffers_def)
  with r mismatch show ?thesis
    by (auto simp add: ConvertToDeviceBuffers_def len)
qed

subsection \<open>Effects of the calls\<close>

lemma host_blocks_append: "host_blocks (xs @ ys) = host_blocks xs @ host_blocks ys"
  by (induction xs rule: host_blocks.induct) auto

lemma invoke_fields:
  "invoke c f W = (r, W') \<Longrightarrow>
     objects W' = objects W \<and> allocated W' = allocated W \<and>
     all_registered W' = all_registered W \<and> calls W' = calls W @ [c]"
  by (auto simp add: invoke_def split: prod.splits)

lemma GetEvent_state:
  "AsyncEvents_GetEvent ex self W = (r, self', W') \<Longrightarrow> self' = self \<and> W' = W"
  by (auto simp add: AsyncEvents_GetEvent_def split: option.splits)

lemma GetNcclComm_effect:
  assumes "GetNcclComm X p g m sid W = (r, W1)"
  shows "objects W1 = objects W \<and> (\<exists>seg. calls W1 = calls W @ seg \<and> host_blocks seg = [])"
  using assms
  by (auto simp add: GetNcclComm_def Let_def split: sum.splits if_splits option.splits prod.splits
      dest!: invoke_fields)

lemma launch_effect:
  assumes "ExecuteOnStream_launch X thunk p comm W = (r, W1)"
  shows "objects W1 = objects W \<and> (\<exists>seg. calls W1 = calls W @ seg \<and> host_blocks seg = [])"
  using assms
  by (auto simp add: ExecuteOnStream_launch_def Let_def
      split: sum.splits if_splits option.splits prod.splits
      dest!: invoke_fields GetEvent_state)

lemma ExecuteOnStream_effect:
  assumes "ExecuteOnStream X thunk p W = (r, thunk1, W1)"
  shows "objects W1 = objects W \<and>
         (\<exists>seg. calls W1 = calls W @ seg \<and>
            (if first_call_to_execute thunk then
               (if r = Inr OkStatus
                then thunk1 = thunk \<lparr> first_call_to_execute := False \<rparr> \<and>
                     host_blocks seg = [issuing_stream thunk p]
                else thunk1 = thunk)
             else thunk1 = thunk \<and> host_blocks seg = []))"
proof -
  obtain r0 W0 where g: "GetNcclComm X (collective_params p) (replica_groups (config thunk))
               (group_mode (config thunk)) (GetStreamId thunk) W = (r0, W0)"
    by (cases "GetNcclComm X (collective_params p) (replica_groups (config thunk))
               (group_mode (config thunk)) (GetStreamId thunk) W")
  from GetNcclComm_effect [OF g] obtain seg0 where
    o0: "objects W0 = objects W" and c0: "calls W0 = calls W @ seg0" and b0: "host_blocks seg0 = []"
    by auto
  show ?thesis
  proof (cases r0)
    case (Inl f)
    with assms g o0 c0 b0 show ?thesis by (auto simp add: ExecuteOnStream_def)
  next
    case (Inr so)
    show ?thesis
    proof (cases so)
      case (Inl e)
      with Inr assms g o0 c0 b0 show ?thesis by (auto simp add: ExecuteOnStream_def)
    next
      case (Inr comm)
      obtain r2 W2 where l: "ExecuteOnStream_launch X thunk p comm W0 = (r2, W2)"
        by (cases "ExecuteOnStream_launch X thunk p comm W0")
      from launch_effect [OF l] obtain seg2 where
        o2: "objects W2 = objects W0" and c2: "calls W2 = calls W0 @ seg2"
        and b2: "host_blocks seg2 = []"
        by auto
      have c02: "calls W2 = calls W @ (seg0 @ seg2)" and b02: "host_blocks (seg0 @ seg2) = []"
        by (simp_all add: c0 c2 b0 b2 host_blocks_append)
      have o02: "objects W2 = objects W" by (simp add: o2 o0)
      show ?thesis
      proof (cases "\<exists>u. r2 = Inr (Inr u)")
        case False
        with assms g \<open>r0 = Inr so\<close> Inr l have "thunk1 = thunk" "W1 = W2" "r \<noteq> Inr OkStatus"
          by (auto simp add: ExecuteOnStream_def split: sum.splits)
        with c02 b02 o02 show ?thesis by auto
      next
        case True
        then have r2: "r2 = Inr OkStatus" by auto
        show ?thesis
        proof (cases "first_call_to_execute thunk")
          case False
          with assms g \<open>r0 = Inr so\<close> Inr l r2 have "thunk1 = thunk" "W1 = W2"
            by (auto simp add: ExecuteOnStream_def)
          with c02 b02 o02 False show ?thesis by auto
        next
          case first: True
          obtain rb W3 where
            b: "invoke (BlockHostUntilDone_call (issuing_stream thunk p))
                  (BlockHostUntilDone X (issuing_stream thunk p)) W2 = (rb, W3)"
            by (cases "invoke (BlockHostUntilDone_call (issuing_stream thunk p))
                  (BlockHostUntilDone X (issuing_stream thunk p)) W2")
          from invoke_fields [OF b] c02 o02
          have c3: "calls W3 = calls W @ (seg0 @ seg2 @ [BlockHostUntilDone_call (issuing_stream thunk p)])"
            and o3: "objects W3 = objects W" by simp_all
          have hb: "host_blocks (seg0 @ seg2 @ [BlockHostUntilDone_call (issuing_stream thunk p)])
                    = [issuing_stream thunk p]"
            by (simp add: host_blocks_append b0 b2)
          from assms g \<open>r0 = Inr so\<close> Inr l r2 first b
          have res: "(r, thunk1, W1) =
                (case rb of Inl e \<Rightarrow> (Inr (Inl e), thunk, W3)
                 | Inr u \<Rightarrow> (Inr OkStatus, thunk \<lparr> first_call_to_execute := False \<rparr>, W3))"
            by (simp add: ExecuteOnStream_def Let_def issuing_stream_def)
          show ?thesis
          proof (cases rb)
            case (Inl e)
            with res have "r = Inr (Inl e)" "thunk1 = thunk" "W1 = W3" by simp_all
            with first c3 o3 show ?thesis by auto
          next
            case (Inr u)
            with res have "r = Inr OkStatus"
              "thunk1 = thunk \<lparr> first_call_to_execute := False \<rparr>" "W1 = W3" by simp_all
            with first c3 o3 hb show ?thesis by auto
          qed
        qed
      qed
    qed
  qed
qed

lemma Initialize_effect:
  assumes "Initialize X thunk p W = (st, W1)"
  shows "\<exists>seg. calls W1 = calls W @ seg \<and> host_blocks seg = []"
  using assms
  by (auto simp add: Initialize_def AsyncEvents_Initialize_def Let_def
      split: sum.splits if_splits option.splits prod.splits dest!: invoke_fields)

lemma run_calls_after_first:
  "\<not> first_call_to_execute thunk \<Longrightarrow> run_calls X cs thunk W = (rs, thunk', W') \<Longrightarrow>
   j < length rs \<Longrightarrow> host_blocks (snd (rs ! j)) = []"
proof (induction cs arbitrary: thunk W rs j thunk' W')
  case Nil
  then show ?case by simp
next
  case (Cons c cs)
  show ?case
  proof (cases c)
    case (Initialize_call q)
    obtain st W1 where i: "Initialize X thunk q W = (st, W1)"
      by (cases "Initialize X thunk q W")
    obtain rs1 t2 W2 where r: "run_calls X cs thunk W1 = (rs1, t2, W2)"
      by (cases "run_calls X cs thunk W1") auto
    from Initialize_effect [OF i] obtain seg where
      seg: "calls W1 = calls W @ seg" "host_blocks seg = []" by auto
    from Cons.prems(2) Initialize_call i r seg
    have rs: "rs = (Inr st, seg) # rs1" by simp
    show ?thesis
    proof (cases j)
      case 0
      with rs seg show ?thesis by simp
    next
      case (Suc j')
      with Cons.prems(3) rs have "j' < length rs1" by simp
      from Cons.IH [OF Cons.prems(1) r this] Suc rs show ?thesis by simp
    qed
  next
    case (ExecuteOnStream_call q)
    obtain out t1 W1 where e: "ExecuteOnStream X thunk q W = (out, t1, W1)"
      by (cases "ExecuteOnStream X thunk q W") auto
    from ExecuteOnStream_effect [OF e] Cons.prems(1) obtain seg where
      seg: "calls W1 = calls W @ seg" "host_blocks seg = []" and t1: "t1 = thunk"
      by auto
    show ?thesis
    proof (cases out)
      case (Inl f)
      with Cons.prems(2) ExecuteOnStream_call e seg have "rs = [(Inl f, seg)]" by simp
      with Cons.prems(3) seg show ?thesis by simp
    next
      case (Inr st)
      obtain rs1 t2 W2 where r: "run_calls X cs thunk W1 = (rs1, t2, W2)"
        by (cases "run_calls X cs thunk W1") auto
      from Cons.prems(2) ExecuteOnStream_call e seg Inr r t1
      have rs: "rs = (Inr st, seg) # rs1" by simp
      show ?thesis
      proof (cases j)
        case 0
        with rs seg show ?thesis by simp
      next
        case (Suc j')
        with Cons.prems(3) rs have "j' < length rs1" by simp
        from Cons.IH [OF Cons.prems(1) r this] Suc rs show ?thesis by simp
      qed
    qed
  qed
qed


subsection \<open>The host synchronization of the first execution\<close>

text \<open>
  C6. On a thunk whose first-call flag is set, as it is after construction, take any
  sequence of calls. The first call of \<^verbatim>\<open>ExecuteOnStream\<close> that returns Ok blocks the
  host exactly once, on the issuing stream (the asynchronous stream for an asynchronous
  thunk, the main stream otherwise), and no later call of the sequence blocks the host.
\<close>

theorem ExecuteOnStream_blocks_host_once:
  "first_call_to_execute thunk \<Longrightarrow> run_calls X cs thunk W = (rs, thunk', W') \<Longrightarrow>
   k < length rs \<Longrightarrow> cs ! k = ExecuteOnStream_call p \<Longrightarrow> fst (rs ! k) = Inr OkStatus \<Longrightarrow>
   (\<forall>j<k. \<forall>q. cs ! j = ExecuteOnStream_call q \<longrightarrow> fst (rs ! j) \<noteq> Inr OkStatus) \<Longrightarrow>
   host_blocks (snd (rs ! k)) = [issuing_stream thunk p] \<and>
   (\<forall>j. k < j \<and> j < length rs \<longrightarrow> host_blocks (snd (rs ! j)) = [])"
proof (induction cs arbitrary: thunk W rs k thunk' W')
  case Nil
  then show ?case by simp
next
  case (Cons c cs)
  show ?case
  proof (cases c)
    case (Initialize_call q)
    obtain st W1 where i: "Initialize X thunk q W = (st, W1)"
      by (cases "Initialize X thunk q W")
    obtain rs1 t2 W2 where r: "run_calls X cs thunk W1 = (rs1, t2, W2)"
      by (cases "run_calls X cs thunk W1") auto
    from Cons.prems(2) Initialize_call i r
    have rs: "rs = (Inr st, drop (length (calls W)) (calls W1)) # rs1" by simp
    from Cons.prems(4) Initialize_call obtain k' where k: "k = Suc k'"
      by (cases k) auto
    from Cons.prems(3) rs k have 1: "k' < length rs1" by simp
    from Cons.prems(4) k have 2: "cs ! k' = ExecuteOnStream_call p" by simp
    from Cons.prems(5) rs k have 3: "fst (rs1 ! k') = Inr OkStatus" by simp
    have 4: "\<forall>j<k'. \<forall>q. cs ! j = ExecuteOnStream_call q \<longrightarrow> fst (rs1 ! j) \<noteq> Inr OkStatus"
    proof (intro allI impI)
      fix j q assume "j < k'" "cs ! j = ExecuteOnStream_call q"
      with Cons.prems(6) [rule_format, of "Suc j" q] k rs
      show "fst (rs1 ! j) \<noteq> Inr OkStatus" by simp
    qed
    from Cons.IH [OF Cons.prems(1) r 1 2 3 4]
    have ih: "host_blocks (snd (rs1 ! k')) = [issuing_stream thunk p]"
      "\<forall>j. k' < j \<and> j < length rs1 \<longrightarrow> host_blocks (snd (rs1 ! j)) = []"
      by auto
    show ?thesis
    proof (intro conjI allI impI)
      show "host_blocks (snd (rs ! k)) = [issuing_stream thunk p]"
        using ih(1) rs k by simp
    next
      fix j assume j: "k < j \<and> j < length rs"
      then obtain j' where "j = Suc j'" by (cases j) auto
      with j ih(2) [rule_format, of j'] rs k show "host_blocks (snd (rs ! j)) = []"
        by simp
    qed
  next
    case (ExecuteOnStream_call q)
    obtain out t1 W1 where e: "ExecuteOnStream X thunk q W = (out, t1, W1)"
      by (cases "ExecuteOnStream X thunk q W") auto
    from ExecuteOnStream_effect [OF e] Cons.prems(1) obtain seg where
      seg: "calls W1 = calls W @ seg"
      and ok: "out = Inr OkStatus \<Longrightarrow>
                 t1 = thunk \<lparr> first_call_to_execute := False \<rparr> \<and>
                 host_blocks seg = [issuing_stream thunk q]"
      and nok: "out \<noteq> Inr OkStatus \<Longrightarrow> t1 = thunk"
      by auto
    show ?thesis
    proof (cases out)
      case (Inl f)
      with Cons.prems(2) ExecuteOnStream_call e seg have "rs = [(Inl f, seg)]" by simp
      with Cons.prems(3,5) show ?thesis by simp
    next
      case (Inr st)
      obtain rs1 t2 W2 where r: "run_calls X cs t1 W1 = (rs1, t2, W2)"
        by (cases "run_calls X cs t1 W1") auto
      from Cons.prems(2) ExecuteOnStream_call e seg Inr r
      have rs: "rs = (Inr st, seg) # rs1" by simp
      show ?thesis
      proof (cases k)
        case 0
        with Cons.prems(4,5) ExecuteOnStream_call rs Inr
        have pq: "p = q" and "out = Inr OkStatus" by simp_all
        from ok [OF this(2)] have t1: "\<not> first_call_to_execute t1"
          and hb: "host_blocks seg = [issuing_stream thunk q]" by simp_all
        show ?thesis
        proof (intro conjI allI impI)
          show "host_blocks (snd (rs ! k)) = [issuing_stream thunk p]"
            using hb rs 0 pq by simp
        next
          fix j assume j: "k < j \<and> j < length rs"
          then obtain j' where j': "j = Suc j'" by (cases j) auto
          with j rs have "j' < length rs1" by simp
          from run_calls_after_first [OF t1 r this] j' rs
          show "host_blocks (snd (rs ! j)) = []" by simp
        qed
      next
        case (Suc k')
        from Cons.prems(6) [rule_format, of 0 q] Suc ExecuteOnStream_call rs Inr
        have "out \<noteq> Inr OkStatus" by simp
        from nok [OF this] have t1: "t1 = thunk" .
        from Cons.prems(3) rs Suc have 1: "k' < length rs1" by simp
        from Cons.prems(4) Suc have 2: "cs ! k' = ExecuteOnStream_call p" by simp
        from Cons.prems(5) rs Suc have 3: "fst (rs1 ! k') = Inr OkStatus" by simp
        have 4: "\<forall>j<k'. \<forall>q. cs ! j = ExecuteOnStream_call q \<longrightarrow>
                   fst (rs1 ! j) \<noteq> Inr OkStatus"
        proof (intro allI impI)
          fix j q' assume "j < k'" "cs ! j = ExecuteOnStream_call q'"
          with Cons.prems(6) [rule_format, of "Suc j" q'] Suc rs
          show "fst (rs1 ! j) \<noteq> Inr OkStatus" by simp
        qed
        from Cons.IH [OF Cons.prems(1) r [unfolded t1] 1 2 3 4]
        have ih: "host_blocks (snd (rs1 ! k')) = [issuing_stream thunk p]"
          "\<forall>j. k' < j \<and> j < length rs1 \<longrightarrow> host_blocks (snd (rs1 ! j)) = []"
          by auto
        show ?thesis
        proof (intro conjI allI impI)
          show "host_blocks (snd (rs ! k)) = [issuing_stream thunk p]"
            using ih(1) rs Suc by simp
        next
          fix j assume j: "k < j \<and> j < length rs"
          then obtain j' where "j = Suc j'" by (cases j) auto
          with j ih(2) [rule_format, of j'] rs Suc show "host_blocks (snd (rs ! j)) = []"
            by simp
        qed
      qed
    qed
  qed
qed

lemma fresh_thunk_eq:
  "fresh_thunk =
    (\<lparr> config = scenario_one_group, GetStreamId = 0, GetAsyncStreamKind = 0,
        async_events = Some 0, first_call_to_execute = True \<rparr>,
     example_world \<lparr> objects := (objects example_world)(0 := \<lparr> events = Map.empty \<rparr>),
                     allocated := 1 \<rparr>)"
  by (simp add: fresh_thunk_def NcclCollectiveThunk_ctor_def example_world_def)

lemmas example_simps = example_thunk_calls_def example_externals_def
  example_world_def Initialize_def AsyncEvents_Initialize_def invoke_def try_emplace_def
  ExecuteOnStream_def ExecuteOnStream_launch_def GetNcclComm_def NcclCliqueKey_rank_def
  example_params_def example_collective_params_def IsAsync_def AsyncEvents_GetEvent_def
  scenario_one_group_def main_stream_def comms_stream_def Let_def

lemma example_run:
  "fst (run_calls (example_externals True) example_thunk_calls
         (fst fresh_thunk) (snd fresh_thunk)) =
   [(Inr OkStatus, [Event_ctor_call 7, Event_Init_call 7]),
    (Inr OkStatus,
      [GetComm_call \<lparr>devices = [10, 11, 12, 13], key_stream_id = 0\<rparr> 2,
       ThenWaitFor_stream_call comms_stream main_stream,
       RunNcclCollective_call comms_stream 102,
       ThenRecordEvent_call comms_stream 0,
       BlockHostUntilDone_call comms_stream]),
    (Inr OkStatus,
      [GetComm_call \<lparr>devices = [10, 11, 12, 13], key_stream_id = 0\<rparr> 2,
       ThenWaitFor_stream_call comms_stream main_stream,
       RunNcclCollective_call comms_stream 102,
       ThenRecordEvent_call comms_stream 0])]"
  by (simp add: fresh_thunk_eq example_simps)

lemma sync_thunk_eq:
  "sync_thunk =
    (\<lparr> config = scenario_one_group, GetStreamId = 0, GetAsyncStreamKind = 0,
        async_events = None, first_call_to_execute = True \<rparr>, example_world)"
  by (simp add: sync_thunk_def NcclCollectiveThunk_ctor_def)

lemma flaky_run:
  "fst (run_calls flaky_externals
         [ExecuteOnStream_call example_params, ExecuteOnStream_call example_params,
          ExecuteOnStream_call example_params] (fst sync_thunk) (snd sync_thunk)) =
   [(Inr (Inl (Error kUnknown ''transport failure'')),
      [GetComm_call \<lparr>devices = [10, 11, 12, 13], key_stream_id = 0\<rparr> 2,
       RunNcclCollective_call main_stream 102]),
    (Inr OkStatus,
      [GetComm_call \<lparr>devices = [10, 11, 12, 13], key_stream_id = 0\<rparr> 2,
       RunNcclCollective_call main_stream 102,
       BlockHostUntilDone_call main_stream]),
    (Inr OkStatus,
      [GetComm_call \<lparr>devices = [10, 11, 12, 13], key_stream_id = 0\<rparr> 2,
       RunNcclCollective_call main_stream 102])]"
  by (simp add: sync_thunk_eq flaky_externals_def example_simps)

theorem ExecuteOnStream_blocks_host_once_witness:
  "first_call_to_execute (fst fresh_thunk) \<and>
   fst (fst (run_calls (example_externals True) example_thunk_calls
               (fst fresh_thunk) (snd fresh_thunk)) ! 1) = Inr OkStatus \<and>
   host_blocks (snd (fst (run_calls (example_externals True) example_thunk_calls
                            (fst fresh_thunk) (snd fresh_thunk)) ! 1)) = [comms_stream] \<and>
   host_blocks (snd (fst (run_calls (example_externals True) example_thunk_calls
                            (fst fresh_thunk) (snd fresh_thunk)) ! 2)) = [] \<and>
   first_call_to_execute (fst sync_thunk) \<and>
   fst (fst (run_calls flaky_externals
               [ExecuteOnStream_call example_params, ExecuteOnStream_call example_params,
                ExecuteOnStream_call example_params] (fst sync_thunk) (snd sync_thunk)) ! 0)
     \<noteq> Inr OkStatus \<and>
   fst (fst (run_calls flaky_externals
               [ExecuteOnStream_call example_params, ExecuteOnStream_call example_params,
                ExecuteOnStream_call example_params] (fst sync_thunk) (snd sync_thunk)) ! 1)
     = Inr OkStatus \<and>
   host_blocks (snd (fst (run_calls flaky_externals
               [ExecuteOnStream_call example_params, ExecuteOnStream_call example_params,
                ExecuteOnStream_call example_params] (fst sync_thunk) (snd sync_thunk)) ! 1))
     = [main_stream] \<and>
   host_blocks (snd (fst (run_calls flaky_externals
               [ExecuteOnStream_call example_params, ExecuteOnStream_call example_params,
                ExecuteOnStream_call example_params] (fst sync_thunk) (snd sync_thunk)) ! 2))
     = []"
proof -
  let ?run = "run_calls (example_externals True) example_thunk_calls
                (fst fresh_thunk) (snd fresh_thunk)"
  have flag: "first_call_to_execute (fst fresh_thunk)"
    by (simp add: fresh_thunk_eq)
  have run: "?run = (fst ?run, fst (snd ?run), snd (snd ?run))"
    by simp
  have k: "1 < length (fst ?run)"
    by (simp add: example_run)
  have call: "example_thunk_calls ! 1 = ExecuteOnStream_call example_params"
    by (simp add: example_thunk_calls_def)
  have ok: "fst (fst ?run ! 1) = Inr OkStatus"
    by (simp add: example_run)
  have before: "\<forall>j<1. \<forall>q. example_thunk_calls ! j = ExecuteOnStream_call q \<longrightarrow>
                  fst (fst ?run ! j) \<noteq> Inr OkStatus"
    by (simp add: example_thunk_calls_def)
  have stream: "issuing_stream (fst fresh_thunk) example_params = comms_stream"
    by (simp add: issuing_stream_def fresh_thunk_eq IsAsync_def example_params_def)
  from ExecuteOnStream_blocks_host_once [OF flag run k call ok before]
  have async1: "host_blocks (snd (fst ?run ! 1)) = [comms_stream]"
    and "\<forall>j. 1 < j \<and> j < length (fst ?run) \<longrightarrow> host_blocks (snd (fst ?run ! j)) = []"
    by (simp_all add: stream)
  from this(2) [rule_format, of 2] have async2: "host_blocks (snd (fst ?run ! 2)) = []"
    by (simp add: example_run)
  let ?calls = "[ExecuteOnStream_call example_params, ExecuteOnStream_call example_params,
                 ExecuteOnStream_call example_params]"
  let ?flaky = "run_calls flaky_externals ?calls (fst sync_thunk) (snd sync_thunk)"
  have flag': "first_call_to_execute (fst sync_thunk)"
    by (simp add: sync_thunk_eq)
  have run': "?flaky = (fst ?flaky, fst (snd ?flaky), snd (snd ?flaky))"
    by simp
  have k': "1 < length (fst ?flaky)"
    unfolding flaky_run by simp
  have call': "?calls ! 1 = ExecuteOnStream_call example_params"
    by simp
  have failed: "fst (fst ?flaky ! 0) \<noteq> Inr OkStatus"
    unfolding flaky_run by simp
  have ok': "fst (fst ?flaky ! 1) = Inr OkStatus"
    unfolding flaky_run by simp
  from failed
  have before': "\<forall>j<1. \<forall>q. ?calls ! j = ExecuteOnStream_call q \<longrightarrow>
                   fst (fst ?flaky ! j) \<noteq> Inr OkStatus"
    by simp
  have stream': "issuing_stream (fst sync_thunk) example_params = main_stream"
    by (simp add: issuing_stream_def sync_thunk_eq IsAsync_def example_params_def)
  from ExecuteOnStream_blocks_host_once [OF flag' run' k' call' ok' before']
  have sync1: "host_blocks (snd (fst ?flaky ! 1)) = [main_stream]"
    and "\<forall>j. 1 < j \<and> j < length (fst ?flaky) \<longrightarrow> host_blocks (snd (fst ?flaky ! j)) = []"
    by (simp_all add: stream')
  from this(2) [rule_format, of 2] have sync2: "host_blocks (snd (fst ?flaky ! 2)) = []"
    unfolding flaky_run by simp
  from flag ok async1 async2 flag' failed ok' sync1 sync2 show ?thesis
    by blast
qed

subsection \<open>Asynchronous completion events\<close>

lemma AsyncEvents_Initialize_ok:
  "AsyncEvents_Initialize X ex self W = (OkStatus, self', W') \<Longrightarrow> events self' ex \<noteq> None"
  by (auto simp add: AsyncEvents_Initialize_def try_emplace_def
      split: if_splits prod.splits option.splits)

lemma AsyncEvents_Initialize_present:
  "events self ex \<noteq> None \<Longrightarrow> AsyncEvents_Initialize X ex self V = (OkStatus, self, V)"
  by (simp add: AsyncEvents_Initialize_def)

lemma AsyncEvents_Initialize_others:
  "AsyncEvents_Initialize X ex self W = (st, self', W') \<Longrightarrow> ex' \<noteq> ex \<Longrightarrow>
   events self' ex' = events self ex'"
  by (auto simp add: AsyncEvents_Initialize_def try_emplace_def
      split: if_splits prod.splits option.splits)

lemma AsyncEvents_Initialize_fail:
  "AsyncEvents_Initialize X ex self W = (Inl e, self', W') \<Longrightarrow> self' = self"
  by (auto simp add: AsyncEvents_Initialize_def try_emplace_def
      split: if_splits prod.splits option.splits)

lemma AsyncEvents_Initialize_objects:
  "AsyncEvents_Initialize X ex self W = (st, self', W') \<Longrightarrow> objects W' = objects W"
  by (auto simp add: AsyncEvents_Initialize_def
      split: if_splits prod.splits option.splits dest!: invoke_fields)

lemma Initialize_events_none:
  assumes i: "Initialize X thunk q W = (st, W1)"
    and a: "async_events thunk = Some a"
    and n: "events (objects W a) ex = None"
    and f: "executor q = ex \<Longrightarrow> st \<noteq> OkStatus"
  shows "events (objects W1 a) ex = None"
proof -
  obtain st0 self W0 where
    ae: "AsyncEvents_Initialize X (executor q) (objects W a) W = (st0, self, W0)"
    by (metis prod_cases3)
  with i a have st: "st = st0" and W1: "W1 = W0 \<lparr> objects := (objects W0)(a := self) \<rparr>"
    by (auto simp add: Initialize_def Let_def split: sum.splits)
  show ?thesis
  proof (cases "executor q = ex")
    case True
    with f st obtain e where "st0 = Inl e" by (cases st0) auto
    with ae have "self = objects W a" by (auto dest: AsyncEvents_Initialize_fail)
    with n W1 show ?thesis by simp
  next
    case False
    with AsyncEvents_Initialize_others [OF ae, of ex] n W1 show ?thesis by simp
  qed
qed

lemma run_calls_events_none:
  "async_events thunk = Some a \<Longrightarrow> events (objects W a) ex = None \<Longrightarrow>
   run_calls X cs thunk W = (rs, thunk', W') \<Longrightarrow>
   (\<forall>j<length rs. \<forall>q. cs ! j = Initialize_call q \<and> executor q = ex \<longrightarrow>
      fst (rs ! j) \<noteq> Inr OkStatus) \<Longrightarrow>
   events (objects W' a) ex = None"
proof (induction cs arbitrary: thunk W rs thunk' W')
  case Nil
  then show ?case by simp
next
  case (Cons c cs)
  show ?case
  proof (cases c)
    case (Initialize_call q)
    obtain st W1 where i: "Initialize X thunk q W = (st, W1)"
      by (cases "Initialize X thunk q W")
    obtain rs1 t2 W2 where r: "run_calls X cs thunk W1 = (rs1, t2, W2)"
      by (cases "run_calls X cs thunk W1") auto
    from Cons.prems(3) Initialize_call i r
    have rs: "rs = (Inr st, drop (length (calls W)) (calls W1)) # rs1" and W': "W' = W2"
      by simp_all
    from Cons.prems(4) [rule_format, of 0 q] rs Initialize_call
    have "executor q = ex \<Longrightarrow> st \<noteq> OkStatus" by auto
    from Initialize_events_none [OF i Cons.prems(1,2) this]
    have n1: "events (objects W1 a) ex = None" .
    have "\<forall>j<length rs1. \<forall>q. cs ! j = Initialize_call q \<and> executor q = ex \<longrightarrow>
            fst (rs1 ! j) \<noteq> Inr OkStatus"
    proof (intro allI impI)
      fix j q' assume "j < length rs1" "cs ! j = Initialize_call q' \<and> executor q' = ex"
      with Cons.prems(4) [rule_format, of "Suc j" q'] rs
      show "fst (rs1 ! j) \<noteq> Inr OkStatus" by simp
    qed
    from Cons.IH [OF Cons.prems(1) n1 r this] W' show ?thesis by simp
  next
    case (ExecuteOnStream_call q)
    obtain out t1 W1 where e: "ExecuteOnStream X thunk q W = (out, t1, W1)"
      by (cases "ExecuteOnStream X thunk q W") auto
    from ExecuteOnStream_effect [OF e]
    have o: "objects W1 = objects W" and t1: "async_events t1 = async_events thunk"
      by (auto split: if_splits)
    show ?thesis
    proof (cases out)
      case (Inl f)
      with Cons.prems(3) ExecuteOnStream_call e have "W' = W1" by simp
      with o Cons.prems(2) show ?thesis by simp
    next
      case (Inr st)
      obtain rs1 t2 W2 where r: "run_calls X cs t1 W1 = (rs1, t2, W2)"
        by (cases "run_calls X cs t1 W1") auto
      from Cons.prems(3) ExecuteOnStream_call e Inr r
      have rs: "rs = (Inr st, drop (length (calls W)) (calls W1)) # rs1" and W': "W' = W2"
        by simp_all
      have "\<forall>j<length rs1. \<forall>q. cs ! j = Initialize_call q \<and> executor q = ex \<longrightarrow>
              fst (rs1 ! j) \<noteq> Inr OkStatus"
      proof (intro allI impI)
        fix j q' assume "j < length rs1" "cs ! j = Initialize_call q' \<and> executor q' = ex"
        with Cons.prems(4) [rule_format, of "Suc j" q'] rs
        show "fst (rs1 ! j) \<noteq> Inr OkStatus" by simp
      qed
      from Cons.IH [of t1 W1, OF _ _ r this] t1 Cons.prems(1,2) o W' show ?thesis by simp
    qed
  qed
qed

lemma Initialize_twice:
  assumes "Initialize X thunk params W = (OkStatus, W')"
  shows "Initialize X thunk params W' = (OkStatus, W')"
proof (cases "async_events thunk")
  case None
  with assms show ?thesis by (simp add: Initialize_def)
next
  case (Some a)
  obtain st self W1 where
    ae: "AsyncEvents_Initialize X (executor params) (objects W a) W = (st, self, W1)"
    by (metis prod_cases3)
  with assms Some have st: "st = OkStatus"
    and W': "W' = W1\<lparr>objects := (objects W1)(a := self)\<rparr>"
    by (auto simp: Initialize_def Let_def split: sum.splits)
  from ae st have "events self (executor params) \<noteq> None"
    by (auto dest: AsyncEvents_Initialize_ok)
  then have "AsyncEvents_Initialize X (executor params) self W' = (OkStatus, self, W')"
    by (rule AsyncEvents_Initialize_present)
  moreover have "objects W' a = self" by (simp add: W')
  ultimately show ?thesis using Some by (simp add: Initialize_def W')
qed

text \<open>
  C3. Construct an asynchronous thunk and let its caller make any sequence of calls. If
  no call of \<^verbatim>\<open>Initialize\<close> for the executor of a stream has returned Ok, then
  \<^verbatim>\<open>GetEvent\<close> for that executor returns an Internal error and leaves the events and the
  state as they are (no event is created or inserted), and
  \<^verbatim>\<open>NcclCollectiveDoneThunk::ExecuteOnStream\<close> on that stream, through the shared events,
  returns the same Internal error and makes no call: no wait is issued on the stream.
\<close>

theorem GetEvent_before_Initialize:
  assumes ctor: "NcclCollectiveThunk_ctor cfg stream_id stream_kind False W0 = (thunk, W1)"
    and run: "run_calls X cs thunk W1 = (rs, thunk', W2)"
    and never: "\<forall>j<length rs. \<forall>q. cs ! j = Initialize_call q \<and>
                  executor q = parent (stream params) \<longrightarrow> fst (rs ! j) \<noteq> Inr OkStatus"
  shows "\<exists>a. async_events thunk = Some a \<and>
           AsyncEvents_GetEvent (parent (stream params)) (objects W2 a) W2 =
             (Inl (Error kInternal
                ''Collective operation async completion event not initialized''),
              objects W2 a, W2) \<and>
           NcclCollectiveDoneThunk_ExecuteOnStream X
               (NcclCollectiveDoneThunk_ctor (async_events thunk)) params W2 =
             (Inr (Inl (Error kInternal
                ''Collective operation async completion event not initialized'')), W2)"
proof -
  let ?a = "allocated W0"
  from ctor have a: "async_events thunk = Some ?a"
    and n: "events (objects W1 ?a) (parent (stream params)) = None"
    by (auto simp add: NcclCollectiveThunk_ctor_def)
  from run_calls_events_none [OF a n run never]
  have none: "events (objects W2 ?a) (parent (stream params)) = None" .
  then have "AsyncEvents_GetEvent (parent (stream params)) (objects W2 ?a) W2 =
             (Inl (Error kInternal
                ''Collective operation async completion event not initialized''),
              objects W2 ?a, W2)"
    by (simp add: AsyncEvents_GetEvent_def)
  moreover from this a
  have "NcclCollectiveDoneThunk_ExecuteOnStream X
               (NcclCollectiveDoneThunk_ctor (async_events thunk)) params W2 =
             (Inr (Inl (Error kInternal
                ''Collective operation async completion event not initialized'')), W2)"
    by (simp add: NcclCollectiveDoneThunk_ExecuteOnStream_def NcclCollectiveDoneThunk_ctor_def)
  ultimately show ?thesis using a by simp
qed

lemma failed_initialize_run:
  "fst (run_calls (example_externals False) [Initialize_call \<lparr> executor = 7 \<rparr>]
         (fst fresh_thunk) (snd fresh_thunk)) =
   [(Inr (Inl (Error kInternal
        ''Failed to initialize collective operation async completion event'')),
     [Event_ctor_call 7, Event_Init_call 7])]"
  by (simp add: fresh_thunk_eq example_simps)

theorem GetEvent_before_Initialize_witness:
  "NcclCollectiveDoneThunk_ExecuteOnStream (example_externals False)
     (NcclCollectiveDoneThunk_ctor (async_events (fst fresh_thunk))) example_params
     (snd (snd (run_calls (example_externals False) [Initialize_call \<lparr> executor = 7 \<rparr>]
                  (fst fresh_thunk) (snd fresh_thunk)))) =
   (Inr (Inl (Error kInternal
      ''Collective operation async completion event not initialized'')),
    snd (snd (run_calls (example_externals False) [Initialize_call \<lparr> executor = 7 \<rparr>]
                (fst fresh_thunk) (snd fresh_thunk))))"
proof -
  let ?run = "run_calls (example_externals False) [Initialize_call \<lparr> executor = 7 \<rparr>]
                (fst fresh_thunk) (snd fresh_thunk)"
  have ctor: "NcclCollectiveThunk_ctor scenario_one_group 0 0 False example_world =
                (fst fresh_thunk, snd fresh_thunk)"
    by (simp add: fresh_thunk_def)
  have run: "?run = (fst ?run, fst (snd ?run), snd (snd ?run))"
    by simp
  have never: "\<forall>j<length (fst ?run). \<forall>q.
                 [Initialize_call \<lparr> executor = 7 \<rparr>] ! j = Initialize_call q \<and>
                 executor q = parent (stream example_params) \<longrightarrow>
                 fst (fst ?run ! j) \<noteq> Inr OkStatus"
    unfolding failed_initialize_run by simp
  from GetEvent_before_Initialize [OF ctor run never] show ?thesis
    by auto
qed

text \<open>
  C4. \<^verbatim>\<open>AsyncEvents::Initialize\<close> is idempotent per executor. After a call that returned
  Ok, a second call for the same executor, in whatever state the collaborators are,
  returns Ok, leaves the events and the state as they are (it creates no event), and
  \<^verbatim>\<open>GetEvent\<close> returns the same event before and after it. The same holds for
  \<^verbatim>\<open>NcclCollectiveThunk::Initialize\<close>, which forwards to it.
\<close>

theorem AsyncEvents_Initialize_idempotent:
  "(AsyncEvents_Initialize X ex self W = (OkStatus, self1, W1) \<and>
    AsyncEvents_Initialize X ex self1 V = (status2, self2, V2) \<longrightarrow>
      status2 = OkStatus \<and> self2 = self1 \<and> V2 = V \<and>
      (\<exists>event. AsyncEvents_GetEvent ex self1 W1 = (Inr event, self1, W1) \<and>
               AsyncEvents_GetEvent ex self2 V2 = (Inr event, self2, V2))) \<and>
   (Initialize X thunk params U = (OkStatus, U1) \<and>
    Initialize X thunk params U1 = (status3, U2) \<longrightarrow>
      status3 = OkStatus \<and> U2 = U1)"
proof (intro conjI impI)
  assume h: "AsyncEvents_Initialize X ex self W = (OkStatus, self1, W1) \<and>
    AsyncEvents_Initialize X ex self1 V = (status2, self2, V2)"
  then have p: "events self1 ex \<noteq> None" by (auto dest: AsyncEvents_Initialize_ok)
  from AsyncEvents_Initialize_present [OF p, of X V] h
  have s: "status2 = OkStatus" "self2 = self1" "V2 = V" by simp_all
  from p obtain event where "events self1 ex = Some event" by auto
  then have "AsyncEvents_GetEvent ex self1 W1 = (Inr event, self1, W1) \<and>
               AsyncEvents_GetEvent ex self2 V2 = (Inr event, self2, V2)"
    by (simp add: AsyncEvents_GetEvent_def s)
  then show "\<exists>event. AsyncEvents_GetEvent ex self1 W1 = (Inr event, self1, W1) \<and>
               AsyncEvents_GetEvent ex self2 V2 = (Inr event, self2, V2)" ..
  from s show "status2 = OkStatus" "self2 = self1" "V2 = V" by simp_all
next
  assume h: "Initialize X thunk params U = (OkStatus, U1) \<and>
    Initialize X thunk params U1 = (status3, U2)"
  with Initialize_twice [of X thunk params U U1]
  show "status3 = OkStatus" "U2 = U1" by simp_all
qed

theorem AsyncEvents_Initialize_idempotent_witness:
  "AsyncEvents_Initialize (example_externals True) 7 \<lparr> events = Map.empty \<rparr> example_world =
     (OkStatus, \<lparr> events = [7 \<mapsto> 0] \<rparr>,
      example_world \<lparr> external := 1, calls := [Event_ctor_call 7, Event_Init_call 7] \<rparr>) \<and>
   AsyncEvents_Initialize (example_externals True) 7 \<lparr> events = [7 \<mapsto> 0] \<rparr>
     (example_world \<lparr> external := 1, calls := [Event_ctor_call 7, Event_Init_call 7] \<rparr>) =
     (OkStatus, \<lparr> events = [7 \<mapsto> 0] \<rparr>,
      example_world \<lparr> external := 1, calls := [Event_ctor_call 7, Event_Init_call 7] \<rparr>) \<and>
   Initialize (example_externals True) (fst fresh_thunk) \<lparr> executor = 7 \<rparr>
     (snd (Initialize (example_externals True) (fst fresh_thunk) \<lparr> executor = 7 \<rparr>
             (snd fresh_thunk))) =
     (OkStatus,
      snd (Initialize (example_externals True) (fst fresh_thunk) \<lparr> executor = 7 \<rparr>
             (snd fresh_thunk)))"
proof -
  let ?X = "example_externals True"
  let ?W1 = "example_world \<lparr> external := 1, calls := [Event_ctor_call 7, Event_Init_call 7] \<rparr>"
  let ?self1 = "\<lparr> events = [7 \<mapsto> (0::nat)] \<rparr>"
  let ?second = "AsyncEvents_Initialize ?X 7 ?self1 ?W1"
  let ?init = "Initialize ?X (fst fresh_thunk) \<lparr> executor = 7 \<rparr> (snd fresh_thunk)"
  let ?init2 = "Initialize ?X (fst fresh_thunk) \<lparr> executor = 7 \<rparr> (snd ?init)"
  have first: "AsyncEvents_Initialize ?X 7 \<lparr> events = Map.empty \<rparr> example_world =
                 (OkStatus, ?self1, ?W1)"
    by (simp add: AsyncEvents_Initialize_def example_externals_def example_world_def
          invoke_def try_emplace_def)
  have second: "?second = (fst ?second, fst (snd ?second), snd (snd ?second))"
    by simp
  have init: "?init = (OkStatus, snd ?init)"
    by (simp add: fresh_thunk_eq example_simps)
  have init2: "?init2 = (fst ?init2, snd ?init2)"
    by simp
  from AsyncEvents_Initialize_idempotent
         [where X = ?X and ex = 7 and self = "\<lparr> events = Map.empty \<rparr>"
            and W = example_world and ?self1.0 = ?self1 and ?W1.0 = ?W1 and V = ?W1
            and ?status2.0 = "fst ?second" and ?self2.0 = "fst (snd ?second)"
            and ?V2.0 = "snd (snd ?second)"
            and thunk = "fst fresh_thunk" and params = "\<lparr> executor = 7 \<rparr>"
            and U = "snd fresh_thunk" and ?U1.0 = "snd ?init"
            and ?status3.0 = "fst ?init2" and ?U2.0 = "snd ?init2"]
       first second init init2
  have "fst ?second = OkStatus \<and> fst (snd ?second) = ?self1 \<and> snd (snd ?second) = ?W1"
    and "fst ?init2 = OkStatus \<and> snd ?init2 = snd ?init"
    by blast+
  with first second init2 show ?thesis
    by (metis (no_types, lifting))
qed

subsection \<open>Buffer registration\<close>

lemma index_registered:
  "per_device_comms_index d R = (comms, R1) \<Longrightarrow>
     (c \<in> comms \<longleftrightarrow> registered R d c) \<and> handles R1 = handles R \<and>
     (\<forall>d' c'. registered R1 d' c' = registered R d' c') \<and>
     per_device_comms R1 d = Some comms \<and>
     (per_device_comms R d \<noteq> None \<longrightarrow> R1 = R)"
  by (auto simp add: per_device_comms_index_def registered_def split: option.splits if_splits)

lemma register_and_record_effect:
  assumes "register_and_record X d comm buffer W = (st, W1)"
  shows "(\<forall>d' c'. registered (all_registered W) d' c' \<longrightarrow> registered (all_registered W1) d' c') \<and>
         (case st of
            Inl e \<Rightarrow> all_registered W1 = all_registered W
          | Inr u \<Rightarrow> registered (all_registered W1) d comm \<and>
                     length (handles (all_registered W1)) = length (handles (all_registered W)) + 1)"
  using assms
  by (auto simp add: register_and_record_def Let_def per_device_comms_index_def registered_def
      split: sum.splits prod.splits option.splits if_splits dest!: invoke_fields)


lemma MaybeRegisterBuffers_body_noop:
  assumes "registered (all_registered W) d comm"
  shows "MaybeRegisterBuffers_body X d buffer comm W = (OkStatus, W)"
  using assms
  by (auto simp add: MaybeRegisterBuffers_body_def per_device_comms_index_def registered_def
      split: option.splits)

lemma MaybeRegisterBuffers_body_effect:
  assumes b: "MaybeRegisterBuffers_body X d buffer comm W = (st, W1)"
  shows "(\<forall>d' c'. registered (all_registered W) d' c' \<longrightarrow>
                   registered (all_registered W1) d' c') \<and>
         length (handles (all_registered W)) \<le> length (handles (all_registered W1)) \<and>
         (length (handles (all_registered W)) < length (handles (all_registered W1)) \<longrightarrow>
            registered (all_registered W1) d comm)"
proof -
  obtain comms R1 where i: "per_device_comms_index d (all_registered W) = (comms, R1)"
    by (cases "per_device_comms_index d (all_registered W)")
  note ir = index_registered [OF i]
  let ?W1 = "W \<lparr> all_registered := R1 \<rparr>"
  have base: "(\<forall>d' c'. registered (all_registered ?W1) d' c' = registered (all_registered W) d' c')"
    "handles (all_registered ?W1) = handles (all_registered W)"
    using ir by simp_all
  show ?thesis
  proof (cases "comm \<in> comms")
    case True
    with b i have "W1 = ?W1" by (simp add: MaybeRegisterBuffers_body_def)
    with base show ?thesis by simp
  next
    case False
    let ?src = "if DeviceBufferPair.source_memory_space buffer = kCollectiveMemorySpaceColor
                   then register_and_record X d comm
                          (DeviceBufferPair.source_buffer buffer) ?W1
                   else (OkStatus, ?W1)"
    obtain s2 W2 where src: "?src = (s2, W2)" by (cases ?src)
    have e2: "(\<forall>d' c'. registered (all_registered ?W1) d' c' \<longrightarrow>
                   registered (all_registered W2) d' c') \<and>
         length (handles (all_registered ?W1)) \<le> length (handles (all_registered W2)) \<and>
         (length (handles (all_registered ?W1)) < length (handles (all_registered W2)) \<longrightarrow>
            registered (all_registered W2) d comm)"
    proof (cases "DeviceBufferPair.source_memory_space buffer = kCollectiveMemorySpaceColor")
      case True
      with src have "register_and_record X d comm (DeviceBufferPair.source_buffer buffer) ?W1
                      = (s2, W2)" by simp
      from register_and_record_effect [OF this] show ?thesis
        by (cases s2) auto
    next
      case False
      with src show ?thesis by simp
    qed
    show ?thesis
    proof (cases s2)
      case (Inl e)
      with b i False src have "W1 = W2" by (simp add: MaybeRegisterBuffers_body_def)
      with e2 base show ?thesis by simp
    next
      case (Inr u)
      let ?dst = "if DeviceBufferPair.destination_memory_space buffer =
                       kCollectiveMemorySpaceColor
                  then register_and_record X d comm
                         (DeviceBufferPair.destination_buffer buffer) W2
                  else (OkStatus, W2)"
      from b i False src Inr have dst: "?dst = (st, W1)"
        by (simp add: MaybeRegisterBuffers_body_def)
      have e3: "(\<forall>d' c'. registered (all_registered W2) d' c' \<longrightarrow>
                   registered (all_registered W1) d' c') \<and>
         length (handles (all_registered W2)) \<le> length (handles (all_registered W1)) \<and>
         (length (handles (all_registered W2)) < length (handles (all_registered W1)) \<longrightarrow>
            registered (all_registered W1) d comm)"
      proof (cases "DeviceBufferPair.destination_memory_space buffer =
                       kCollectiveMemorySpaceColor")
        case True
        with dst have "register_and_record X d comm
                         (DeviceBufferPair.destination_buffer buffer) W2 = (st, W1)" by simp
        from register_and_record_effect [OF this] show ?thesis
          by (cases st) auto
      next
        case False
        with dst show ?thesis by simp
      qed
      from e2 e3 base show ?thesis
        by (metis (no_types, lifting) le_antisym le_trans linorder_not_le)
    qed
  qed
qed

lemma MaybeRegisterBuffers_loop_noop:
  "registered (all_registered W) d comm \<Longrightarrow>
   MaybeRegisterBuffers_loop X d buffers comm i W = (OkStatus, W)"
proof (induction X d buffers comm i W rule: MaybeRegisterBuffers_loop.induct)
  case (1 X d buffers comm i W)
  show ?case
  proof (cases "i < length buffers")
    case True
    from 1(2) have b: "MaybeRegisterBuffers_body X d (buffers ! i) comm W = (OkStatus, W)"
      by (rule MaybeRegisterBuffers_body_noop)
    from 1(1) [OF True b [symmetric] refl 1(2)] True b show ?thesis
      by (subst MaybeRegisterBuffers_loop.simps) simp
  next
    case False
    then show ?thesis by (subst MaybeRegisterBuffers_loop.simps) simp
  qed
qed

lemma MaybeRegisterBuffers_loop_effect:
  "MaybeRegisterBuffers_loop X d buffers comm i W = (st, W1) \<Longrightarrow>
     (\<forall>d' c'. registered (all_registered W) d' c' \<longrightarrow>
                   registered (all_registered W1) d' c') \<and>
         length (handles (all_registered W)) \<le> length (handles (all_registered W1)) \<and>
         (length (handles (all_registered W)) < length (handles (all_registered W1)) \<longrightarrow>
            registered (all_registered W1) d comm)"
proof (induction X d buffers comm i W arbitrary: st W1 rule: MaybeRegisterBuffers_loop.induct)
  case (1 X d buffers comm i W)
  show ?case
  proof (cases "i < length buffers")
    case False
    with 1(2) have "W1 = W" by (subst (asm) MaybeRegisterBuffers_loop.simps) simp
    then show ?thesis by simp
  next
    case True
    obtain sb Wb where b: "MaybeRegisterBuffers_body X d (buffers ! i) comm W = (sb, Wb)"
      by (cases "MaybeRegisterBuffers_body X d (buffers ! i) comm W")
    note eb = MaybeRegisterBuffers_body_effect [OF b]
    show ?thesis
    proof (cases sb)
      case (Inl e)
      with 1(2) True b have "W1 = Wb" by (subst (asm) MaybeRegisterBuffers_loop.simps) simp
      with eb show ?thesis by simp
    next
      case (Inr u)
      with 1(2) True b
      have r: "MaybeRegisterBuffers_loop X d buffers comm (i + 1) Wb = (st, W1)"
        by (subst (asm) MaybeRegisterBuffers_loop.simps) simp
      from 1(1) [OF True b [symmetric] Inr r]
      have er: "(\<forall>d' c'. registered (all_registered Wb) d' c' \<longrightarrow>
                   registered (all_registered W1) d' c') \<and>
         length (handles (all_registered Wb)) \<le> length (handles (all_registered W1)) \<and>
         (length (handles (all_registered Wb)) < length (handles (all_registered W1)) \<longrightarrow>
            registered (all_registered W1) d comm)" by simp
      from eb er show ?thesis
        by (metis (no_types, lifting) le_antisym le_trans linorder_not_le)
    qed
  qed
qed


text \<open>
  C5. \<^verbatim>\<open>MaybeRegisterBuffers\<close> never removes an entry of the registration table. After a
  call that registered at least one buffer (it kept a handle), the communicator is in the
  table under the device, and a second call with the same device ordinal and
  communicator, for any buffer list and in any state that holds this table, returns Ok
  and leaves the state as it is: it makes no call of \<^verbatim>\<open>RegisterBuffer\<close>.
\<close>

theorem MaybeRegisterBuffers_memoizes:
  assumes first: "MaybeRegisterBuffers X device_ordinal buffers comm W = (status, W1)"
  shows "(\<forall>d c. registered (all_registered W) d c \<longrightarrow> registered (all_registered W1) d c) \<and>
         (length (handles (all_registered W)) < length (handles (all_registered W1)) \<longrightarrow>
            (\<forall>buffers2 V. all_registered V = all_registered W1 \<longrightarrow>
                MaybeRegisterBuffers X device_ordinal buffers2 comm V = (OkStatus, V)))"
  using MaybeRegisterBuffers_loop_effect [OF first [unfolded MaybeRegisterBuffers_def]]
  by (auto simp add: MaybeRegisterBuffers_def intro!: MaybeRegisterBuffers_loop_noop)

lemmas registration_simps = MaybeRegisterBuffers_def MaybeRegisterBuffers_loop.simps
  MaybeRegisterBuffers_body_def register_and_record_def per_device_comms_index_def
  invoke_def example_externals_def example_world_def example_registered_world_def
  example_device_buffers_def kCollectiveMemorySpaceColor_def Let_def

lemma example_first_registration:
  "MaybeRegisterBuffers (example_externals True) 0 example_device_buffers 5 example_world =
     (OkStatus, example_registered_world)"
  by (simp add: registration_simps)

theorem MaybeRegisterBuffers_memoizes_witness:
  "length (handles (all_registered example_world)) <
     length (handles (all_registered example_registered_world)) \<and>
   registered (all_registered example_registered_world) 0 5 \<and>
   calls example_registered_world = [RegisterBuffer_call 5 100, RegisterBuffer_call 5 101] \<and>
   MaybeRegisterBuffers (example_externals True) 0 (rev example_device_buffers) 5
     example_registered_world = (OkStatus, example_registered_world)"
proof -
  have grew: "length (handles (all_registered example_world)) <
                length (handles (all_registered example_registered_world))"
    by (simp add: example_world_def example_registered_world_def)
  from MaybeRegisterBuffers_memoizes [OF example_first_registration] grew
  have "MaybeRegisterBuffers (example_externals True) 0 (rev example_device_buffers) 5
          example_registered_world = (OkStatus, example_registered_world)"
    by blast
  with grew show ?thesis
    by (simp add: example_world_def example_registered_world_def registered_def)
qed

subsection \<open>Acquiring the communicator\<close>

lemma c_find_le: "c_find xs v \<le> length xs"
  by (induction xs) auto

lemma c_find_end: "c_find xs v = length xs \<longleftrightarrow> v \<notin> set xs"
  using c_find_le [of _ v] by (induction xs) auto

lemma c_find_first:
  "v \<in> set xs \<Longrightarrow> c_find xs v < length xs \<and> xs ! c_find xs v = v \<and>
     (\<forall>j < c_find xs v. xs ! j \<noteq> v)"
proof (induction xs)
  case Nil
  then show ?case by simp
next
  case (Cons x xs)
  show ?case
  proof (cases "x = v")
    case True
    then show ?thesis by simp
  next
    case False
    with Cons have ih: "c_find xs v < length xs \<and> xs ! c_find xs v = v \<and>
     (\<forall>j < c_find xs v. xs ! j \<noteq> v)" by simp
    have "\<forall>j < Suc (c_find xs v). (x # xs) ! j \<noteq> v"
    proof (intro allI impI)
      fix j assume "j < Suc (c_find xs v)"
      with ih False show "(x # xs) ! j \<noteq> v" by (cases j) auto
    qed
    with ih False show ?thesis by simp
  qed
qed

lemma c_find_distinct:
  "distinct xs \<Longrightarrow> j < length xs \<Longrightarrow> xs ! j = v \<Longrightarrow> c_find xs v = j"
proof -
  assume d: "distinct xs" and j: "j < length xs" and v: "xs ! j = v"
  then have "v \<in> set xs" by auto
  from c_find_first [OF this] j v d show ?thesis
    by (auto simp add: distinct_conv_nth)
qed

text \<open>
  C8. Let participant resolution return a list. When the global NCCL id configuration is
  active and the length of the list differs from the replica count of the device
  assignment, \<^verbatim>\<open>GetNcclComm\<close> and \<^verbatim>\<open>LockNcclComm\<close> both return InvalidArgument and leave
  the state as it is: no call is made, so no communicator is acquired or constructed.
  Otherwise the check passes: each function returns what the statements after the check
  compute.
\<close>

theorem partial_replica_groups_rejected:
  assumes gp: "GetParticipatingDevices X (global_device_id params) (device_assn params)
                 groups mode = Inr participants"
  shows
   "(IsGlobalNcclConfig X \<and>
     int (length participants) \<noteq> DeviceAssignment_replica_count X (device_assn params) \<longrightarrow>
       GetNcclComm X params groups mode stream_id W =
         (Inr (Inl (Error kInvalidArgument partial_groups_message)), W) \<and>
       LockNcclComm X params groups mode op stream_id opt W =
         (Inl (Error kInvalidArgument partial_groups_message), W)) \<and>
    (\<not> (IsGlobalNcclConfig X \<and>
        int (length participants) \<noteq> DeviceAssignment_replica_count X (device_assn params)) \<longrightarrow>
       GetNcclComm X params groups mode stream_id W =
         (case NcclCliqueKey_rank \<lparr> devices = participants, key_stream_id = stream_id \<rparr>
                 (global_device_id params) of
            None \<Rightarrow> (Inl EmptyOptionalDeref, W)
          | Some rank \<Rightarrow>
              (case invoke
                      (GetComm_call \<lparr> devices = participants, key_stream_id = stream_id \<rparr> rank)
                      (GetComm X \<lparr> devices = participants, key_stream_id = stream_id \<rparr> rank)
                      W of
                 (r, W1) \<Rightarrow> (Inr r, W1))) \<and>
       LockNcclComm X params groups mode op stream_id opt W =
         (if c_find participants (global_device_id params) = length participants then
            (Inl (Error kInternal ''RET_CHECK failure it != participants.end()''), W)
          else
            (case GetNcclCliqueIdCallback X (nccl_clique_id_callback params)
                    (length participants =
                     GetNumLocalParticipants participants
                       (map_option (map snd) (global_device_id_map params))) of
               Inl e \<Rightarrow> (Inl e, W)
             | Inr clique_id_callback \<Rightarrow>
                 invoke
                   (AcquireNcclComm_call participants
                      (GetNumLocalParticipants participants
                         (map_option (map snd) (global_device_id_map params)))
                      (c_find participants (global_device_id params)) stream_id)
                   (AcquireNcclComm X (run_id params) op participants
                      (GetNumLocalParticipants participants
                         (map_option (map snd) (global_device_id_map params)))
                      clique_id_callback (c_find participants (global_device_id params))
                      stream_id opt) W)))"
  using gp
  by (cases "global_device_id_map params")
     (simp_all add: GetNcclComm_def LockNcclComm_def partial_groups_message_def Let_def
        split: sum.splits)

lemma example_participants:
  "GetParticipatingDevices (example_externals b) (global_device_id p) (device_assn p) groups mode
     = Inr [10, 11, 12, 13]"
  by (simp add: example_externals_def)

lemmas comm_simps = GetNcclComm_def LockNcclComm_def NcclCliqueKey_rank_def
  GetNumLocalParticipants_def invoke_def example_externals_def example_world_def
  example_collective_params_def partial_groups_message_def Let_def

theorem partial_replica_groups_rejected_witness:
  "GetNcclComm (example_externals True) (example_collective_params \<lparr> device_assn := 2 \<rparr>)
     [] kCrossReplica 0 example_world =
     (Inr (Inl (Error kInvalidArgument partial_groups_message)), example_world) \<and>
   LockNcclComm (example_externals True) (example_collective_params \<lparr> device_assn := 2 \<rparr>)
     [] kCrossReplica 9 0 False example_world =
     (Inl (Error kInvalidArgument partial_groups_message), example_world) \<and>
   GetNcclComm (example_externals True) example_collective_params
     [] kCrossReplica 0 example_world =
     (Inr (Inr 102),
      example_world
        \<lparr> calls := [GetComm_call \<lparr> devices = [10, 11, 12, 13], key_stream_id = 0 \<rparr> 2] \<rparr>) \<and>
   LockNcclComm (example_externals True) example_collective_params
     [] kCrossReplica 9 0 False example_world =
     (Inr 202, example_world \<lparr> calls := [AcquireNcclComm_call [10, 11, 12, 13] 4 2 0] \<rparr>)"
  using partial_replica_groups_rejected
          [OF example_participants
             [of True "example_collective_params \<lparr> device_assn := 2 \<rparr>" "[]" kCrossReplica],
           of 0 example_world 9 False]
        partial_replica_groups_rejected
          [OF example_participants [of True example_collective_params "[]" kCrossReplica],
           of 0 example_world 9 False]
  by (simp add: comm_simps)

text \<open>
  C9. Let participant resolution return a list that contains the calling device. Then the
  rank of the device under the clique key is its zero-based position in the list (the
  only position, when the list has no duplicates), \<^verbatim>\<open>GetNcclComm\<close> does not read an empty
  optional, and when the configuration check passes \<^verbatim>\<open>GetNcclComm\<close> passes this rank to
  \<^verbatim>\<open>GetComm\<close> and \<^verbatim>\<open>LockNcclComm\<close>, whose membership check succeeds, passes the same
  rank to \<^verbatim>\<open>AcquireNcclComm\<close>.
\<close>

theorem rank_of_participant:
  assumes gp: "GetParticipatingDevices X (global_device_id params) (device_assn params)
                 groups mode = Inr participants"
    and mem: "global_device_id params \<in> set participants"
  shows
   "\<exists>rank.
      NcclCliqueKey_rank \<lparr> devices = participants, key_stream_id = stream_id \<rparr>
        (global_device_id params) = Some rank \<and>
      rank < length participants \<and>
      participants ! rank = global_device_id params \<and>
      (\<forall>j<rank. participants ! j \<noteq> global_device_id params) \<and>
      (distinct participants \<longrightarrow>
         (\<forall>j<length participants. participants ! j = global_device_id params \<longrightarrow> j = rank)) \<and>
      fst (GetNcclComm X params groups mode stream_id W) \<noteq> Inl EmptyOptionalDeref \<and>
      (\<not> (IsGlobalNcclConfig X \<and>
          int (length participants) \<noteq>
            DeviceAssignment_replica_count X (device_assn params)) \<longrightarrow>
         GetNcclComm X params groups mode stream_id W =
           (case invoke
                   (GetComm_call \<lparr> devices = participants, key_stream_id = stream_id \<rparr> rank)
                   (GetComm X \<lparr> devices = participants, key_stream_id = stream_id \<rparr> rank)
                   W of
              (r, W1) \<Rightarrow> (Inr r, W1)) \<and>
         LockNcclComm X params groups mode op stream_id opt W =
           (case GetNcclCliqueIdCallback X (nccl_clique_id_callback params)
                   (length participants =
                    GetNumLocalParticipants participants
                      (map_option (map snd) (global_device_id_map params))) of
              Inl e \<Rightarrow> (Inl e, W)
            | Inr clique_id_callback \<Rightarrow>
                invoke
                  (AcquireNcclComm_call participants
                     (GetNumLocalParticipants participants
                        (map_option (map snd) (global_device_id_map params)))
                     rank stream_id)
                  (AcquireNcclComm X (run_id params) op participants
                     (GetNumLocalParticipants participants
                        (map_option (map snd) (global_device_id_map params)))
                     clique_id_callback rank stream_id opt) W))"
proof -
  let ?rank = "c_find participants (global_device_id params)"
  let ?key = "\<lparr> devices = participants, key_stream_id = stream_id \<rparr>"
  have r: "NcclCliqueKey_rank ?key (global_device_id params) = Some ?rank"
    using mem by (simp add: NcclCliqueKey_rank_def)
  note f = c_find_first [OF mem]
  have d: "distinct participants \<longrightarrow>
         (\<forall>j<length participants. participants ! j = global_device_id params \<longrightarrow> j = ?rank)"
    by (auto dest: c_find_distinct)
  have nf: "fst (GetNcclComm X params groups mode stream_id W) \<noteq> Inl EmptyOptionalDeref"
    using gp r by (simp add: GetNcclComm_def Let_def split: prod.splits)
  have ne: "?rank \<noteq> length participants"
    using f by simp
  have pass: "\<not> (IsGlobalNcclConfig X \<and>
          int (length participants) \<noteq>
            DeviceAssignment_replica_count X (device_assn params)) \<longrightarrow>
         GetNcclComm X params groups mode stream_id W =
           (case invoke (GetComm_call ?key ?rank) (GetComm X ?key ?rank) W of
              (r, W1) \<Rightarrow> (Inr r, W1)) \<and>
         LockNcclComm X params groups mode op stream_id opt W =
           (case GetNcclCliqueIdCallback X (nccl_clique_id_callback params)
                   (length participants =
                    GetNumLocalParticipants participants
                      (map_option (map snd) (global_device_id_map params))) of
              Inl e \<Rightarrow> (Inl e, W)
            | Inr clique_id_callback \<Rightarrow>
                invoke
                  (AcquireNcclComm_call participants
                     (GetNumLocalParticipants participants
                        (map_option (map snd) (global_device_id_map params)))
                     ?rank stream_id)
                  (AcquireNcclComm X (run_id params) op participants
                     (GetNumLocalParticipants participants
                        (map_option (map snd) (global_device_id_map params)))
                     clique_id_callback ?rank stream_id opt) W)"
    using gp r ne
    by (cases "global_device_id_map params")
       (simp_all add: GetNcclComm_def LockNcclComm_def Let_def split: sum.splits)
  from r f d nf pass show ?thesis by blast
qed

theorem rank_of_participant_witness:
  "global_device_id example_collective_params \<in> set [10, 11, 12, 13] \<and>
   NcclCliqueKey_rank \<lparr> devices = [10, 11, 12, 13], key_stream_id = 0 \<rparr>
     (global_device_id example_collective_params) = Some 2 \<and>
   fst (GetNcclComm (example_externals True) example_collective_params
          [] kCrossReplica 0 example_world) = Inr (Inr 102) \<and>
   calls (snd (LockNcclComm (example_externals True) example_collective_params
                 [] kCrossReplica 9 0 False example_world)) =
     [AcquireNcclComm_call [10, 11, 12, 13] 4 2 0]"
proof -
  have mem: "global_device_id example_collective_params \<in> set [10, 11, 12, 13]"
    by (simp add: example_collective_params_def)
  from rank_of_participant
         [OF example_participants [of True example_collective_params "[]" kCrossReplica] mem,
          of 0 example_world 9 False]
  obtain rank where
    "NcclCliqueKey_rank \<lparr> devices = [10, 11, 12, 13], key_stream_id = 0 \<rparr>
       (global_device_id example_collective_params) = Some rank"
    and "rank < length [10 :: int64, 11, 12, 13]"
    and "[10, 11, 12, 13] ! rank = global_device_id example_collective_params"
    by blast
  with mem show ?thesis
    by (simp add: comm_simps)
qed


end
